theory Spec2Isabelle
  imports Main "HOL-Library.Sublist"
begin

section \<open>Python values\<close>

text \<open>
  The reasoning loop of \<^verbatim>\<open>maslibpy/reasoning/prompt_based.py\<close> is dynamically typed:
  what a backend returns as message content, what a query list holds and what ends up in
  \<^verbatim>\<open>agent.messages\<close> is decided at run time by \<^verbatim>\<open>isinstance\<close> tests and by
  truthiness. The values the code distinguishes are collected in one datatype.
  A Python \<^verbatim>\<open>str\<close> is a \<^typ>\<open>string\<close>; the text handled here is taken to be ASCII
  (\<^verbatim>\<open>lower\<close> and \<^verbatim>\<open>strip\<close> below are Python's on ASCII text). A \<^verbatim>\<open>dict\<close> is an
  association list with string keys, read with \<^const>\<open>map_of\<close>.

  Modelled from the spec: the message value objects
  (\<^verbatim>\<open>maslibpy.messages.user.UserMessage\<close>, \<^verbatim>\<open>maslibpy.messages.assistant.AIMessage\<close>) are
  not among the sources; following the spec's data model a message is a role
  (\<^verbatim>\<open>"user"\<close> for a \<^verbatim>\<open>UserMessage\<close>, \<^verbatim>\<open>"assistant"\<close> for an \<^verbatim>\<open>AIMessage\<close>) and a
  content, the two classes are unrelated by inheritance, and the constructors accept
  the content they are given.
\<close>

datatype pyval =
    PNone
  | PBool bool
  | PInt int
  | PStr string
  | PList "pyval list"
  | PDict "(string \<times> pyval) list"
  | PGradeNode bool
  | PUserMessage pyval
  | PAIMessage pyval

text \<open>
  Exceptions are values: the class name and the text \<^verbatim>\<open>str(e)\<close> that the loop writes
  into its trace. Only instances of \<^verbatim>\<open>Exception\<close> are modelled, which is what the
  handler in \<^verbatim>\<open>invoke\<close> catches.
\<close>

datatype exn = Exn (exn_class: string) (exn_str: string)

definition truthy :: "pyval \<Rightarrow> bool" where
  "truthy v = (case v of
       PNone \<Rightarrow> False
     | PBool b \<Rightarrow> b
     | PInt n \<Rightarrow> n \<noteq> 0
     | PStr s \<Rightarrow> s \<noteq> []
     | PList xs \<Rightarrow> xs \<noteq> []
     | PDict d \<Rightarrow> d \<noteq> []
     | PGradeNode b \<Rightarrow> True
     | PUserMessage c \<Rightarrow> True
     | PAIMessage c \<Rightarrow> True)"

definition type_name :: "pyval \<Rightarrow> string" where
  "type_name v = (case v of
       PNone \<Rightarrow> ''NoneType''
     | PBool b \<Rightarrow> ''bool''
     | PInt n \<Rightarrow> ''int''
     | PStr s \<Rightarrow> ''str''
     | PList xs \<Rightarrow> ''list''
     | PDict d \<Rightarrow> ''dict''
     | PGradeNode b \<Rightarrow> ''GradeNode''
     | PUserMessage c \<Rightarrow> ''UserMessage''
     | PAIMessage c \<Rightarrow> ''AIMessage'')"

definition AttributeError :: "pyval \<Rightarrow> string \<Rightarrow> exn" where
  \<open>AttributeError v a =
     Exn ''AttributeError''
       ([CHR 0x27] @ type_name v @ ''\' object has no attribute '' @ [CHR 0x27] @ a @ [CHR 0x27])\<close>

definition KeyError :: "string \<Rightarrow> exn" where
  \<open>KeyError k = Exn ''KeyError'' ([CHR 0x27] @ k @ [CHR 0x27])\<close>

definition IndexError :: exn where
  "IndexError = Exn ''IndexError'' ''list index out of range''"

definition UnboundLocalError :: "string \<Rightarrow> exn" where
  \<open>UnboundLocalError x =
     Exn ''UnboundLocalError''
       (''cannot access local variable '' @ [CHR 0x27] @ x @
        ''\' where it is not associated with a value'')\<close>

text \<open>
  An f-string field \<^verbatim>\<open>{v}\<close> renders \<^verbatim>\<open>str(v)\<close>: the text itself for a \<^verbatim>\<open>str\<close>,
  \<^verbatim>\<open>None\<close>, \<^verbatim>\<open>True\<close> and \<^verbatim>\<open>False\<close> for the constants. What \<^verbatim>\<open>str\<close> prints for
  a list, a dict or a message object depends on the message classes; it is the
  parameter \<open>sv\<close>.
\<close>

type_synonym renderer = "pyval \<Rightarrow> string"

definition py_str :: "renderer \<Rightarrow> pyval \<Rightarrow> string" where
  "py_str sv v = (case v of
       PStr s \<Rightarrow> s
     | PNone \<Rightarrow> ''None''
     | PBool b \<Rightarrow> (if b then ''True'' else ''False'')
     | _ \<Rightarrow> sv v)"

section \<open>String operations\<close>

text \<open>\<^verbatim>\<open>sub in s\<close>: \<open>sub\<close> occurs in \<open>s\<close> as a contiguous substring.\<close>

fun py_in :: "string \<Rightarrow> string \<Rightarrow> bool" where
  "py_in sub [] = (sub = [])"
| "py_in sub (c # cs) = (take (length sub) (c # cs) = sub \<or> py_in sub cs)"

text \<open>
  \<^verbatim>\<open>s.rfind(sub)\<close>: the highest index at which \<open>sub\<close> starts in \<open>s\<close>, and \<open>-1\<close> when
  it does not occur.
\<close>

fun rfind :: "string \<Rightarrow> string \<Rightarrow> int" where
  "rfind [] sub = (if sub = [] then 0 else - 1)"
| "rfind (c # cs) sub =
     (let r = rfind cs sub
      in if 0 \<le> r then r + 1
         else if take (length sub) (c # cs) = sub then 0 else - 1)"

definition lower_char :: "char \<Rightarrow> char" where
  "lower_char c =
     (case map_of (zip ''ABCDEFGHIJKLMNOPQRSTUVWXYZ'' ''abcdefghijklmnopqrstuvwxyz'') c of
        Some d \<Rightarrow> d
      | None \<Rightarrow> c)"

definition lower :: "string \<Rightarrow> string" where
  "lower s = map lower_char s"

text \<open>
  The characters \<^verbatim>\<open>str.strip()\<close> removes: tab, line feed, vertical tab, form feed,
  carriage return, the four separators \<open>0x1C\<close> to \<open>0x1F\<close>, and the space.
\<close>

definition is_space :: "char \<Rightarrow> bool" where
  "is_space c \<longleftrightarrow> c \<in> set [CHR 0x09, CHR 0x0A, CHR 0x0B, CHR 0x0C, CHR 0x0D,
                             CHR 0x1C, CHR 0x1D, CHR 0x1E, CHR 0x1F, CHR 0x20]"

definition strip :: "string \<Rightarrow> string" where
  "strip s = rev (dropWhile is_space (rev (dropWhile is_space s)))"

text \<open>\<^verbatim>\<open>s.split(sep)\<close> for a one-character separator: never empty.\<close>

fun split :: "char \<Rightarrow> string \<Rightarrow> string list" where
  "split sep [] = [[]]"
| "split sep (c # cs) =
     (if c = sep then [] # split sep cs
      else (case split sep cs of
              seg # segs \<Rightarrow> (c # seg) # segs
            | [] \<Rightarrow> [[c]]))"

text \<open>Decimal rendering of a natural number, for \<^verbatim>\<open>{i+1}\<close>.\<close>

fun str_nat :: "nat \<Rightarrow> string" where
  "str_nat n =
     (if n < 10 then [''0123456789'' ! n]
      else str_nat (n div 10) @ [''0123456789'' ! (n mod 10)])"

section \<open>Backends, agent and state\<close>

text \<open>
  The second and third argument of \<^verbatim>\<open>llm.invoke\<close>: \<^verbatim>\<open>response_format\<close> is either the
  default \<^verbatim>\<open>""\<close> or the class \<^verbatim>\<open>GradeNode\<close>; \<^verbatim>\<open>tools\<close> is either the default
  \<^verbatim>\<open>[]\<close> or the one-element list declaring \<^verbatim>\<open>evaluate_grade\<close>.
\<close>

datatype response_format = FormatEmpty | FormatGradeNode

datatype tools = NoTools | EvaluateGradeTool

text \<open>
  A backend handle. Backends are external and may keep state of their own, and the
  generator and the critic may be the same object: their state is one shared value of
  type \<open>'w\<close>, threaded through every call. \<open>llm_content\<close> stands for the two source
  lines
  \<^verbatim>\<open>res = llm.invoke(messages,response_format,tools)\<close> and
  \<^verbatim>\<open>updates_res=res["choices"][0]["message"]["content"]\<close>: it yields the content, or
  the exception raised by the call or by the subscripts. A capability flag is \<open>None\<close>
  when the attribute is absent (\<^verbatim>\<open>hasattr\<close> is false). The class \<^verbatim>\<open>LLM\<close> of
  \<^verbatim>\<open>maslibpy/llm/llm.py\<close> is one such backend: its \<^verbatim>\<open>invoke\<close> takes the messages
  only, so called with three arguments it raises \<^verbatim>\<open>TypeError\<close>, and it is an
  \<open>llm_content\<close> that always yields an exception.
\<close>

record 'w llm =
  model_name :: string
  supports_response_schema :: "bool option"
  supports_parallel_function_calling :: "bool option"
  llm_content :: "'w \<Rightarrow> pyval list \<Rightarrow> response_format \<Rightarrow> tools \<Rightarrow> (exn + pyval) \<times> 'w"

definition flag_set :: "bool option \<Rightarrow> bool" where
  "flag_set f = (f = Some True)"

text \<open>
  The agent, as \<^verbatim>\<open>PromptBased\<close> reads it. \<open>system_prompt\<close> is the template applied:
  \<open>system_prompt agent v\<close> is \<^verbatim>\<open>agent.system_prompt.format(query=v)\<close>, which may raise.
  The mutable \<^verbatim>\<open>agent.messages\<close> is part of the state below.
\<close>

record 'w agent =
  max_iterations :: int
  generator_llm :: "'w llm"
  critique_llm :: "'w llm"
  system_prompt :: "pyval \<Rightarrow> exn + string"
  prompt_type :: string
  prompt_pattern :: string
  session_id :: string

text \<open>
  One entry of the log of backend calls: which model was called, with what, and what it
  answered. The log is a history variable: the code does not keep it, the model records
  an entry at the call in \<^verbatim>\<open>generate\<close> so that calls can be counted.
\<close>

record call =
  call_model :: string
  call_messages :: "pyval list"
  call_format :: response_format
  call_tools :: tools
  call_reply :: "exn + pyval"

text \<open>
  The state the code reads and writes: the conversation history \<^verbatim>\<open>agent.messages\<close>,
  the backends' state, the log of calls, the directories created and the files written.
  \<^verbatim>\<open>os.makedirs(..., exist_ok=True)\<close> and the write of the trace file are taken to
  succeed.
\<close>

record 'w env =
  messages :: "pyval list"
  world :: 'w
  calls :: "call list"
  dirs :: "string set"
  files :: "string \<rightharpoonup> string"

section \<open>Conversation-history update\<close>

text \<open>
  \<^verbatim>\<open>update_chat_history(agent, query)\<close>. A list query is mutated in place
  (\<^verbatim>\<open>query[-1]=user_msg\<close>), so the function returns the query as it is afterwards
  together with the new history; the query list is an object of its own, distinct from
  \<^verbatim>\<open>agent.messages\<close>. \<^verbatim>\<open>query[-1]\<close> on an empty list raises \<^verbatim>\<open>IndexError\<close>, a
  missing key raises \<^verbatim>\<open>KeyError\<close>; the history is then as it was.
\<close>

definition update_chat_history ::
  "'w agent \<Rightarrow> pyval \<Rightarrow> pyval list \<Rightarrow> exn + (pyval \<times> pyval list)" where
  "update_chat_history agent q ms =
     (case q of
        PStr s \<Rightarrow>
          (case system_prompt agent (PStr s) of
             Inl e \<Rightarrow> Inl e
           | Inr text \<Rightarrow> Inr (q, ms @ [PUserMessage (PStr text)]))
      | PList xs \<Rightarrow>
          (if xs = [] then Inl IndexError
           else (case last xs of
                   PUserMessage c \<Rightarrow> Inr (q, ms @ xs)
                 | PDict d \<Rightarrow>
                     (case map_of d ''role'' of
                        None \<Rightarrow> Inl (KeyError ''role'')
                      | Some r \<Rightarrow>
                          if r = PStr ''user'' then
                            (case map_of d ''content'' of
                               None \<Rightarrow> Inl (KeyError ''content'')
                             | Some c \<Rightarrow>
                                 (case system_prompt agent c of
                                    Inl e \<Rightarrow> Inl e
                                  | Inr text \<Rightarrow>
                                      (let xs' = butlast xs @ [PUserMessage (PStr text)]
                                       in Inr (PList xs', ms @ xs'))))
                          else Inr (q, ms @ xs))
                 | _ \<Rightarrow> Inr (q, ms)))
      | _ \<Rightarrow> Inr (q, ms))"

section \<open>Generate\<close>

text \<open>
  \<^verbatim>\<open>{"role": msg.role, "content": msg.content}\<close> for one entry of the history; an entry
  that is not a message object has no attribute \<^verbatim>\<open>role\<close>.
\<close>

definition message_dict :: "pyval \<Rightarrow> exn + pyval" where
  "message_dict m = (case m of
       PUserMessage c \<Rightarrow> Inr (PDict [(''role'', PStr ''user''), (''content'', c)])
     | PAIMessage c \<Rightarrow> Inr (PDict [(''role'', PStr ''assistant''), (''content'', c)])
     | _ \<Rightarrow> Inl (AttributeError m ''role''))"

fun flatten :: "pyval list \<Rightarrow> exn + pyval list" where
  "flatten [] = Inr []"
| "flatten (m # ms) =
     (case message_dict m of
        Inl e \<Rightarrow> Inl e
      | Inr d \<Rightarrow> (case flatten ms of Inl e \<Rightarrow> Inl e | Inr ds \<Rightarrow> Inr (d # ds)))"

text \<open>
  \<^verbatim>\<open>generate(agent, llm, query, response_format, tools)\<close>. The result is the outcome
  (the exception, or the value returned: the content when it is truthy, \<^verbatim>\<open>None\<close>
  otherwise), the query as mutated, and the state. An exception leaves the state as it
  is at the raise.
\<close>

definition generate ::
  "'w agent \<Rightarrow> 'w llm \<Rightarrow> pyval \<Rightarrow> response_format \<Rightarrow> tools \<Rightarrow> 'w env
     \<Rightarrow> (exn + pyval) \<times> pyval \<times> 'w env" where
  "generate agent llm q response_format tls st =
     (case update_chat_history agent q (messages st) of
        Inl e \<Rightarrow> (Inl e, q, st)
      | Inr (q', ms) \<Rightarrow>
          (let st1 = st\<lparr>messages := ms\<rparr>
           in case flatten ms of
                Inl e \<Rightarrow> (Inl e, q', st1)
              | Inr flat \<Rightarrow>
                  (let (reply, w) = llm_content llm (world st1) flat response_format tls;
                       st2 = st1\<lparr>world := w,
                                 calls := calls st1 @
                                   [\<lparr>call_model = model_name llm, call_messages = flat,
                                     call_format = response_format, call_tools = tls,
                                     call_reply = reply\<rparr>]\<rparr>
                   in case reply of
                        Inl e \<Rightarrow> (Inl e, q', st2)
                      | Inr updates_res \<Rightarrow>
                          if truthy updates_res
                          then (Inr updates_res, q',
                                st2\<lparr>messages := messages st2 @ [PAIMessage updates_res]\<rparr>)
                          else (Inr PNone, q', st2))))"

section \<open>Critique\<close>

definition critique_prompt_1 :: string where
  \<open>critique_prompt_1 =
     ''Evaluate this response for "''\<close>

definition critique_prompt_2 :: string where
  \<open>critique_prompt_2 =
     ''":\<newline>'' @
     ''\<newline>'' @
     ''        ''\<close>

definition critique_prompt_3 :: string where
  \<open>critique_prompt_3 =
     ''\<newline>'' @
     ''\<newline>'' @
     ''        Check:\<newline>'' @
     ''        1. Accuracy: Any errors?\<newline>'' @
     ''        2. Completeness: Missing key info?\<newline>'' @
     ''        3. Clarity: Clear and logical?\<newline>'' @
     ''\<newline>'' @
     ''        If accurate and complete, return exactly: ''\<close>

definition critique_prompt_4 :: string where
  \<open>critique_prompt_4 =
     ''\<newline>'' @
     ''        Otherwise, provide corrected version.''\<close>

text \<open>The f-string \<^verbatim>\<open>critique_prompt\<close>, assembled from its four literal pieces.\<close>

definition critique_prompt :: "renderer \<Rightarrow> pyval \<Rightarrow> pyval \<Rightarrow> string" where
  "critique_prompt sv original_query response =
     critique_prompt_1 @ py_str sv original_query @
     critique_prompt_2 @ py_str sv response @
     critique_prompt_3 @ py_str sv response @
     critique_prompt_4"

definition critique ::
  "renderer \<Rightarrow> 'w agent \<Rightarrow> 'w llm \<Rightarrow> pyval \<Rightarrow> pyval \<Rightarrow> 'w env \<Rightarrow> (exn + pyval) \<times> 'w env" where
  "critique sv agent llm response original_query st =
     (case generate agent llm (PStr (critique_prompt sv original_query response))
             FormatEmpty NoTools st of
        (r, q', st') \<Rightarrow> (r, st'))"

section \<open>Grade\<close>

definition grade_prompt_1 :: string where
  \<open>grade_prompt_1 =
     ''\<newline>'' @
     ''            You are a boolean evaluator that must only return True or False without any additional text or explanation.\<newline>'' @
     ''            Evaluate the response based on these criteria:\<newline>'' @
     ''            1. Accuracy: Is the response factually correct?\<newline>'' @
     ''            2. Completeness: Does it fully address all aspects of the query?\<newline>'' @
     ''            3. Clarity: Is it well-structured and easy to understand?\<newline>'' @
     ''            4. Relevance: Does it directly address the topic asked?\<newline>'' @
     ''\<newline>'' @
     ''            Evaluate:\<newline>'' @
     ''            - **User Query**: ''\<close>

definition grade_prompt_2 :: string where
  \<open>grade_prompt_2 =
     ''\<newline>'' @
     ''            - **Generated Response**: ''\<close>

definition grade_prompt_3 :: string where
  \<open>grade_prompt_3 =
     ''\<newline>'' @
     ''            - **Critiqued Response**: ''\<close>

definition grade_prompt_4 :: string where
  \<open>grade_prompt_4 =
     ''\<newline>'' @
     ''\<newline>'' @
     ''            Return exactly \'True\' if all criteria are met, or exactly \'False\' if any criterion fails.\<newline>'' @
     ''            Do not include any reasoning, explanations, or additional characters - your entire output must be either the word \'True\' or the word \'False\'.\<newline>'' @
     ''            ''\<close>

definition grade_prompt :: "renderer \<Rightarrow> pyval \<Rightarrow> pyval \<Rightarrow> pyval \<Rightarrow> string" where
  "grade_prompt sv q generated_response critiqued_response =
     grade_prompt_1 @ py_str sv q @
     grade_prompt_2 @ py_str sv generated_response @
     grade_prompt_3 @ py_str sv critiqued_response @
     grade_prompt_4"

text \<open>
  The plain-text strategy, source lines 134 to 141: \<^verbatim>\<open>strip\<close> exists on a \<^verbatim>\<open>str\<close>
  only.
\<close>

definition grade_plain_text ::
  "'w agent \<Rightarrow> 'w llm \<Rightarrow> string \<Rightarrow> 'w env \<Rightarrow> (exn + pyval) \<times> 'w env" where
  "grade_plain_text agent llm prompt st =
     (case generate agent llm (PStr prompt) FormatEmpty NoTools st of
        (Inl e, q', st') \<Rightarrow> (Inl e, st')
      | (Inr grade_result, q', st') \<Rightarrow>
          (case grade_result of
             PStr s \<Rightarrow>
               (let result_text = lower (strip s)
                in if result_text = ''true'' then (Inr (PBool True), st')
                   else if py_in ''true'' result_text \<and> \<not> py_in ''false'' result_text
                   then (Inr (PBool True), st')
                   else (Inr (PBool False), st'))
           | _ \<Rightarrow> (Inl (AttributeError grade_result ''strip''), st')))"

text \<open>The function-calling strategy, the body of the \<^verbatim>\<open>if\<close> at source line 124.\<close>

definition grade_function_calling ::
  "'w agent \<Rightarrow> 'w llm \<Rightarrow> string \<Rightarrow> 'w env \<Rightarrow> (exn + pyval) \<times> 'w env" where
  "grade_function_calling agent llm prompt st =
     (case generate agent llm (PStr prompt) FormatEmpty EvaluateGradeTool st of
        (Inl e, q', st') \<Rightarrow> (Inl e, st')
      | (Inr grade_result, q', st') \<Rightarrow>
          (case grade_result of
             PDict d \<Rightarrow>
               (case map_of d ''status'' of
                  Some v \<Rightarrow> (Inr v, st')
                | None \<Rightarrow> (Inr (PBool False), st'))
           | PStr s \<Rightarrow>
               (if py_in ''true'' (lower s) then (Inr (PBool True), st')
                else (Inr (PBool False), st'))
           | _ \<Rightarrow> (Inr (PBool False), st')))"

text \<open>Everything after the first \<^verbatim>\<open>if\<close> statement of \<^verbatim>\<open>grade\<close>: source lines 124 to 141.\<close>

definition grade_after_schema ::
  "'w agent \<Rightarrow> 'w llm \<Rightarrow> string \<Rightarrow> 'w env \<Rightarrow> (exn + pyval) \<times> 'w env" where
  "grade_after_schema agent llm prompt st =
     (if flag_set (supports_parallel_function_calling llm)
      then grade_function_calling agent llm prompt st
      else grade_plain_text agent llm prompt st)"

text \<open>The condition of the first \<^verbatim>\<open>if\<close>, source line 119.\<close>

definition schema_selected :: "'w agent \<Rightarrow> 'w llm \<Rightarrow> bool" where
  "schema_selected agent llm \<longleftrightarrow>
     flag_set (supports_response_schema llm) \<and>
     flag_set (supports_parallel_function_calling (critique_llm agent))"

text \<open>
  \<^verbatim>\<open>grade(agent, llm, query, generated_response, critiqued_response)\<close>. The first
  \<^verbatim>\<open>if\<close> returns only when the result is a \<^verbatim>\<open>GradeNode\<close>; otherwise control leaves
  it and reaches the statements that follow.
\<close>

definition grade ::
  "renderer \<Rightarrow> 'w agent \<Rightarrow> 'w llm \<Rightarrow> pyval \<Rightarrow> pyval \<Rightarrow> pyval \<Rightarrow> 'w env
     \<Rightarrow> (exn + pyval) \<times> 'w env" where
  "grade sv agent llm q generated_response critiqued_response st =
     (let prompt = grade_prompt sv q generated_response critiqued_response
      in if schema_selected agent llm
         then (case generate agent llm (PStr prompt) FormatGradeNode EvaluateGradeTool st of
                 (Inl e, q', st') \<Rightarrow> (Inl e, st')
               | (Inr grade_result, q', st') \<Rightarrow>
                   (case grade_result of
                      PGradeNode status \<Rightarrow> (Inr (PBool status), st')
                    | _ \<Rightarrow> grade_after_schema agent llm prompt st'))
         else grade_after_schema agent llm prompt st)"

section \<open>The reasoning loop\<close>

text \<open>
  The marker extraction of source lines 22 to 24:
  \<^verbatim>\<open>ind=generated_response.rfind("Final Answer")\<close> and, when \<^verbatim>\<open>ind>=0\<close>,
  \<^verbatim>\<open>generated_response[ind+len("Final Answer:"):]\<close>.
\<close>

definition final_answer :: "string \<Rightarrow> string" where
  "final_answer generated_response =
     (let ind = rfind generated_response ''Final Answer''
      in if 0 \<le> ind
         then drop (nat (ind + int (length ''Final Answer:''))) generated_response
         else generated_response)"

text \<open>
  The local variables of \<^verbatim>\<open>invoke\<close>. \<^verbatim>\<open>actual_query\<close> and \<^verbatim>\<open>query\<close> name the same
  object, so one field holds it. \<^verbatim>\<open>generated_response\<close> and the loop variable \<^verbatim>\<open>i\<close>
  are unbound (\<open>None\<close>) until first assigned.
\<close>

record locals =
  l_query :: pyval
  l_res :: string
  l_generated_response :: "pyval option"
  l_i :: "nat option"

text \<open>How one pass through the \<^verbatim>\<open>try\<close> block ends.\<close>

datatype step = Raises exn | Breaks | Continues

text \<open>The pieces the loop appends to the trace \<^verbatim>\<open>res\<close>.\<close>

definition epoch_header :: "nat \<Rightarrow> string" where
  "epoch_header i = ''===== Epoch '' @ str_nat (i + 1) @ '' =====\<newline>\<newline>''"

definition generated_entry :: "renderer \<Rightarrow> pyval \<Rightarrow> string" where
  "generated_entry sv v = ''**Generated Response**:\<newline>\<newline>'' @ py_str sv v @ ''\<newline>\<newline>''"

definition critiqued_entry :: "renderer \<Rightarrow> pyval \<Rightarrow> string" where
  "critiqued_entry sv v =
     ''\<newline>\<newline>**Critiqued Response**:\<newline>\<newline>'' @ py_str sv v @ ''\<newline>\<newline>''"

definition grade_entry :: "renderer \<Rightarrow> pyval \<Rightarrow> string" where
  "grade_entry sv v = ''\<newline>\<newline>**Grade node output**\<newline>\<newline>'' @ py_str sv v"

definition separator :: string where
  "separator = replicate 100 CHR ''='' @ ''\<newline>\<newline>''"

definition error_entry :: "exn \<Rightarrow> nat \<Rightarrow> string" where
  "error_entry e i =
     ''\<newline>\<newline>**Error occurred '' @ exn_str e @ '' in iteration '' @ str_nat (i + 1) @
     ''**\<newline>\<newline>''"

definition final_entry :: "renderer \<Rightarrow> pyval \<Rightarrow> string \<Rightarrow> string" where
  "final_entry sv v end_time =
     ''\<newline>\<newline>**Final Output**:\<newline>\<newline>'' @ py_str sv v @
     ''\<newline>\<newline>Response Time:'' @ end_time @ '' seconds''"

text \<open>
  The \<^verbatim>\<open>try\<close> block of iteration \<open>i\<close>, source lines 18 to 38. The progress bar and
  the \<^verbatim>\<open>print\<close> calls write to the terminal only and are left out.
\<close>

definition iteration ::
  "renderer \<Rightarrow> 'w agent \<Rightarrow> nat \<Rightarrow> locals \<Rightarrow> 'w env \<Rightarrow> step \<times> locals \<times> 'w env" where
  "iteration sv agent i L st =
     (case generate agent (generator_llm agent) (l_query L) FormatEmpty NoTools st of
        (Inl e, q1, st1) \<Rightarrow> (Raises e, L\<lparr>l_query := q1\<rparr>, st1)
      | (Inr g, q1, st1) \<Rightarrow>
          (let L1 = L\<lparr>l_query := q1,
                       l_res := l_res L @ epoch_header i @ generated_entry sv g,
                       l_generated_response := Some g\<rparr>
           in case g of
                PNone \<Rightarrow>
                  (Raises (Exn ''Exception'' []),
                   L1\<lparr>l_generated_response := Some (PStr [])\<rparr>, st1)
              | PStr s \<Rightarrow>
                  (let generated_response = PStr (final_answer s);
                       L2 = L1\<lparr>l_generated_response := Some generated_response\<rparr>
                   in case critique sv agent (critique_llm agent) generated_response
                             (l_query L2) st1 of
                        (Inl e, st2) \<Rightarrow> (Raises e, L2, st2)
                      | (Inr critiqued_response, st2) \<Rightarrow>
                          (let L3 = L2\<lparr>l_res := l_res L2 @
                                             critiqued_entry sv critiqued_response\<rparr>
                           in case grade sv agent (critique_llm agent) (l_query L3)
                                     generated_response critiqued_response st2 of
                                (Inl e, st3) \<Rightarrow> (Raises e, L3, st3)
                              | (Inr grade_output, st3) \<Rightarrow>
                                  (let L4 = L3\<lparr>l_res := l_res L3 @
                                                     grade_entry sv grade_output\<rparr>
                                   in if truthy grade_output then (Breaks, L4, st3)
                                      else (Continues,
                                            L4\<lparr>l_res := l_res L4 @ separator\<rparr>,
                                            st3\<lparr>dirs := insert ''results'' (dirs st3)\<rparr>))))
              | _ \<Rightarrow> (Raises (AttributeError g ''rfind''), L1, st1)))"

text \<open>
  How the \<^verbatim>\<open>for\<close> loop ends: an exception left the handler (\<open>Failed\<close>), the
  \<^verbatim>\<open>break\<close> was taken (\<open>Accepted\<close>), or the range ran out (\<open>Exhausted\<close>).
\<close>

datatype loop_exit = Failed exn | Accepted | Exhausted

text \<open>
  The \<^verbatim>\<open>for\<close> loop over the indices still to run, with its handler: the handler
  appends the error entry to \<^verbatim>\<open>res\<close> and raises the exception again; the \<^verbatim>\<open>break\<close>
  after the \<^verbatim>\<open>raise\<close> is never reached.
\<close>

fun for_loop ::
  "renderer \<Rightarrow> 'w agent \<Rightarrow> nat list \<Rightarrow> locals \<Rightarrow> 'w env \<Rightarrow> loop_exit \<times> locals \<times> 'w env" where
  "for_loop sv agent [] L st = (Exhausted, L, st)"
| "for_loop sv agent (i # rest) L st =
     (case iteration sv agent i (L\<lparr>l_i := Some i\<rparr>) st of
        (Raises e, L', st') \<Rightarrow> (Failed e, L'\<lparr>l_res := l_res L' @ error_entry e i\<rparr>, st')
      | (Breaks, L', st') \<Rightarrow> (Accepted, L', st')
      | (Continues, L', st') \<Rightarrow> for_loop sv agent rest L' st')"

text \<open>The path of the trace file, source line 45.\<close>

definition save_path :: "'w agent \<Rightarrow> string" where
  "save_path agent =
     ''prompt_results/'' @ prompt_type agent @ ''_'' @ prompt_pattern agent @
     ''_G_'' @ last (split CHR ''/'' (model_name (generator_llm agent))) @
     ''_C_'' @ last (split CHR ''/'' (model_name (critique_llm agent))) @
     ''_'' @ hd (split CHR ''-'' (session_id agent)) @ ''_.txt''"

text \<open>
  The statements after the loop, source lines 44 to 52. \<open>end_time\<close> is the text of the
  rounded elapsed time; the clock is not modelled. With an empty range
  \<^verbatim>\<open>generated_response\<close> was never assigned and reading it raises.
\<close>

definition finish ::
  "renderer \<Rightarrow> string \<Rightarrow> 'w agent \<Rightarrow> locals \<Rightarrow> 'w env \<Rightarrow> (exn + pyval) \<times> locals \<times> 'w env" where
  "finish sv end_time agent L st =
     (let st1 = st\<lparr>dirs := insert ''prompt_results'' (dirs st)\<rparr>
      in case l_generated_response L of
           None \<Rightarrow> (Inl (UnboundLocalError ''generated_response''), L, st1)
         | Some generated_response \<Rightarrow>
             (let L1 = L\<lparr>l_res := l_res L @ final_entry sv generated_response end_time\<rparr>
              in (Inr generated_response, L1,
                  st1\<lparr>files := (files st1)(save_path agent \<mapsto> l_res L1)\<rparr>)))"

definition init_locals :: "pyval \<Rightarrow> locals" where
  "init_locals q = \<lparr>l_query = q, l_res = [], l_generated_response = None, l_i = None\<rparr>"

text \<open>
  \<^verbatim>\<open>invoke(agent, query)\<close>: the outcome seen by the caller, the local variables as
  they are when the function is left, and the state.
\<close>

definition invoke ::
  "renderer \<Rightarrow> string \<Rightarrow> 'w agent \<Rightarrow> pyval \<Rightarrow> 'w env \<Rightarrow> (exn + pyval) \<times> locals \<times> 'w env" where
  "invoke sv end_time agent q st =
     (case for_loop sv agent [0..<nat (max_iterations agent)] (init_locals q) st of
        (Failed e, L, st') \<Rightarrow> (Inl e, L, st')
      | (Accepted, L, st') \<Rightarrow> finish sv end_time agent L st'
      | (Exhausted, L, st') \<Rightarrow> finish sv end_time agent L st')"

section \<open>The rules as the specification words them\<close>

text \<open>
  The plain-text rule of the specification: trim and lowercase the reply; the grade is
  true iff the text equals \<^verbatim>\<open>true\<close>, or contains \<^verbatim>\<open>true\<close> without also containing
  \<^verbatim>\<open>false\<close>. Containment is \<^const>\<open>sublist\<close>, the library's contiguous sublist.
\<close>

definition spec_grade_text :: "string \<Rightarrow> bool" where
  "spec_grade_text reply =
     (let t = lower (strip reply)
      in t = ''true'' \<or> (sublist ''true'' t \<and> \<not> sublist ''false'' t))"

text \<open>
  The specification's extraction: the substring after the last occurrence of the marker
  and after its trailing colon; a response without the marker is used unmodified.
  \<open>after_last m s\<close> is what follows the last occurrence of \<open>m\<close> in \<open>s\<close>.
\<close>

fun after_last :: "string \<Rightarrow> string \<Rightarrow> string option" where
  "after_last m [] = (if m = [] then Some [] else None)"
| "after_last m (c # cs) =
     (case after_last m cs of
        Some r \<Rightarrow> Some r
      | None \<Rightarrow> if prefix m (c # cs) then Some (drop (length m) (c # cs)) else None)"

definition spec_final_answer :: "string \<Rightarrow> string" where
  "spec_final_answer s =
     (case after_last ''Final Answer'' s of
        None \<Rightarrow> s
      | Some r \<Rightarrow> (case r of c # r' \<Rightarrow> if c = CHR '':'' then r' else r | [] \<Rightarrow> r))"

text \<open>
  The specification's short names: the trailing \<^verbatim>\<open>/\<close>-separated segment of a model
  identifier, and the segment of the session id before its first hyphen.
\<close>

definition trailing_segment :: "string \<Rightarrow> string" where
  "trailing_segment s = rev (takeWhile (\<lambda>c. c \<noteq> CHR ''/'') (rev s))"

definition session_id_prefix :: "string \<Rightarrow> string" where
  "session_id_prefix s = takeWhile (\<lambda>c. c \<noteq> CHR ''-'') s"

section \<open>Cycles and their grades\<close>

text \<open>
  One generate/critique/grade cycle, as the loop body chains the three steps (source
  lines 18, 22 to 24, 29 and 32), without the trace and without the loop's reaction to
  the grade. \<open>cycle sv agent q st = Some (raw, crit, g, q', st')\<close> says: from the query
  \<open>q\<close> and the state \<open>st\<close>, the generate step returns the string \<open>raw\<close>, the
  critique step returns \<open>crit\<close>, the grade step returns \<open>g\<close>, none of them raises,
  and the query and the state are then \<open>q'\<close> and \<open>st'\<close>. It is \<open>None\<close> when a step
  raises or the generated content is not a string.
\<close>

definition cycle ::
  "renderer \<Rightarrow> 'w agent \<Rightarrow> pyval \<Rightarrow> 'w env
     \<Rightarrow> (string \<times> pyval \<times> pyval \<times> pyval \<times> 'w env) option" where
  "cycle sv agent q st =
     (case generate agent (generator_llm agent) q FormatEmpty NoTools st of
        (Inr (PStr raw), q1, st1) \<Rightarrow>
          (case critique sv agent (critique_llm agent) (PStr (final_answer raw)) q1 st1 of
             (Inr crit, st2) \<Rightarrow>
               (case grade sv agent (critique_llm agent) q1 (PStr (final_answer raw)) crit st2 of
                  (Inr g, st3) \<Rightarrow> Some (raw, crit, g, q1, st3)
                | (Inl e, st3) \<Rightarrow> None)
           | (Inl e, st2) \<Rightarrow> None)
      | _ \<Rightarrow> None)"

text \<open>
  \<open>rejected_cycles sv agent n q st = Some (raws, q', st')\<close> says: the first \<open>n\<close> cycles
  of a run from \<open>q\<close> and \<open>st\<close> raise nothing and every one of their grades is falsy;
  \<open>raws\<close> are the responses generated in them, in order, and \<open>q'\<close> and \<open>st'\<close> are
  the query and the state after them. Between two cycles the state is the one the run is
  in: after a rejected cycle the directory \<^verbatim>\<open>results\<close> exists (source line 37).
\<close>

fun rejected_cycles ::
  "renderer \<Rightarrow> 'w agent \<Rightarrow> nat \<Rightarrow> pyval \<Rightarrow> 'w env
     \<Rightarrow> (string list \<times> pyval \<times> 'w env) option" where
  "rejected_cycles sv agent 0 q st = Some ([], q, st)"
| "rejected_cycles sv agent (Suc n) q st =
     (case cycle sv agent q st of
        None \<Rightarrow> None
      | Some (raw, crit, g, q1, st3) \<Rightarrow>
          if truthy g then None
          else (case rejected_cycles sv agent n q1
                       (st3\<lparr>dirs := insert ''results'' (dirs st3)\<rparr>) of
                  None \<Rightarrow> None
                | Some (raws, q', st') \<Rightarrow> Some (raw # raws, q', st')))"

section \<open>Quantities read off a run\<close>

text \<open>
  What one backend call made for a string query leaves in the history: the user message
  holding the templated prompt \<open>text\<close>, and the assistant message when the reply is
  truthy. \<open>call_growth\<close> is the number of these entries.
\<close>

definition reply_truthy :: "call \<Rightarrow> bool" where
  "reply_truthy c = (case call_reply c of Inr v \<Rightarrow> truthy v | Inl e \<Rightarrow> False)"

definition reply_is_grade_node :: "call \<Rightarrow> bool" where
  "reply_is_grade_node c =
     (case call_reply c of Inr v \<Rightarrow> (case v of PGradeNode b \<Rightarrow> True | _ \<Rightarrow> False) | Inl e \<Rightarrow> False)"

definition call_entries :: "string \<Rightarrow> call \<Rightarrow> pyval list" where
  "call_entries text c =
     PUserMessage (PStr text) #
     (case call_reply c of Inr v \<Rightarrow> if truthy v then [PAIMessage v] else [] | Inl e \<Rightarrow> [])"

definition call_growth :: "call \<Rightarrow> nat" where
  "call_growth c = (if reply_truthy c then 2 else 1)"

definition is_grade_node :: "pyval \<Rightarrow> bool" where
  "is_grade_node v = (case v of PGradeNode b \<Rightarrow> True | _ \<Rightarrow> False)"

definition is_dict :: "pyval \<Rightarrow> bool" where
  "is_dict v = (case v of PDict d \<Rightarrow> True | _ \<Rightarrow> False)"

definition is_user_message :: "pyval \<Rightarrow> bool" where
  "is_user_message v = (case v of PUserMessage c \<Rightarrow> True | _ \<Rightarrow> False)"

text \<open>
  \<open>grows st st'\<close>: from \<open>st\<close> to \<open>st'\<close> the history and the log of calls were only
  extended at the end, and no file was written.
\<close>

definition grows :: "'w env \<Rightarrow> 'w env \<Rightarrow> bool" where
  "grows st st' \<longleftrightarrow>
     prefix (messages st) (messages st') \<and> prefix (calls st) (calls st') \<and>
     files st' = files st"

section \<open>Stub backends\<close>

text \<open>
  A scripted backend for running the definitions: its state is the list of replies still
  to give, and each call gives the next one, whatever it is asked.
\<close>

type_synonym script = "(exn + pyval) list"

definition scripted :: "script \<Rightarrow> pyval list \<Rightarrow> response_format \<Rightarrow> tools \<Rightarrow> (exn + pyval) \<times> script" where
  "scripted w flat response_format tls =
     (case w of
        [] \<Rightarrow> (Inl (Exn ''RuntimeError'' ''script exhausted''), [])
      | r # rs \<Rightarrow> (r, rs))"

definition stub_llm :: "string \<Rightarrow> bool option \<Rightarrow> bool option \<Rightarrow> script llm" where
  "stub_llm name schema function_calling =
     \<lparr>model_name = name, supports_response_schema = schema,
      supports_parallel_function_calling = function_calling, llm_content = scripted\<rparr>"

definition stub_renderer :: renderer where
  "stub_renderer v = ''<object>''"

text \<open>
  An agent with the template \<^verbatim>\<open>"Q: {query}"\<close>, a generator without capability flags and
  a critic with the given ones.
\<close>

definition stub_agent :: "int \<Rightarrow> bool option \<Rightarrow> bool option \<Rightarrow> script agent" where
  "stub_agent n schema function_calling =
     \<lparr>max_iterations = n,
      generator_llm = stub_llm ''together_ai/mistralai/Mixtral-8x7B-Instruct-v0.1'' None None,
      critique_llm = stub_llm ''openai/gpt-4o'' schema function_calling,
      system_prompt = (\<lambda>v. Inr (''Q: '' @ py_str stub_renderer v)),
      prompt_type = ''cot'', prompt_pattern = ''react'',
      session_id = ''3f2c9a1e-77b0-4c1d-9e55-0a1b2c3d4e5f''\<rparr>"

definition stub_env :: "script \<Rightarrow> script env" where
  "stub_env w = \<lparr>messages = [], world = w, calls = [], dirs = {}, files = Map.empty\<rparr>"

text \<open>
  Scripts for a run on the query \<^verbatim>\<open>What is 2+2?\<close>: two rounds, the first graded
  \<^verbatim>\<open>False\<close> and the second \<^verbatim>\<open>True\<close>; two rounds both graded \<^verbatim>\<open>False\<close>; and a
  round in which the critic backend fails.
\<close>

definition script_accept_second :: script where
  "script_accept_second =
     [Inr (PStr ''Final Answer: 5''), Inr (PStr '' 5''), Inr (PStr ''False''),
      Inr (PStr ''Final Answer: 4''), Inr (PStr '' 4''), Inr (PStr ''True'')]"

definition script_never_accept :: script where
  "script_never_accept =
     [Inr (PStr ''Final Answer: 5''), Inr (PStr '' 5''), Inr (PStr ''False''),
      Inr (PStr ''Final Answer: 6''), Inr (PStr '' 6''), Inr (PStr ''False'')]"

definition script_critic_fails :: script where
  "script_critic_fails =
     [Inr (PStr ''Final Answer: 5''), Inl (Exn ''RuntimeError'' ''backend unavailable'')]"

text \<open>
  A round with a critic on the structured-schema path whose replies are plain text, as
  the content of a chat completion is.
\<close>

definition script_text_grades :: script where
  "script_text_grades =
     [Inr (PStr ''Final Answer: 4''), Inr (PStr '' 4''), Inr (PStr ''True''), Inr (PStr ''True'')]"

section \<open>Strings: auxiliary facts\<close>

lemma split_not_Nil: "split sep s \<noteq> []"
  by (induction s) (auto split: list.splits)

lemma hd_split: "hd (split sep s) = takeWhile (\<lambda>c. c \<noteq> sep) s"
  by (induction s) (auto split: list.splits simp: split_not_Nil)

lemma split_no_sep: "sep \<notin> set s \<Longrightarrow> split sep s = [s]"
  by (induction s) (auto split: list.splits)

lemma split_singleton: "split sep s = [x] \<Longrightarrow> sep \<notin> set s"
  by (induction s arbitrary: x) (auto split: list.splits if_splits simp: split_not_Nil)

lemma last_split: "last (split sep s) = rev (takeWhile (\<lambda>c. c \<noteq> sep) (rev s))"
proof (induction s)
  case Nil
  then show ?case by simp
next
  case (Cons c cs)
  show ?case
  proof (cases "sep \<in> set cs")
    case True
    then have "takeWhile (\<lambda>c. c \<noteq> sep) (rev cs @ [c]) = takeWhile (\<lambda>c. c \<noteq> sep) (rev cs)"
      by (simp add: takeWhile_append1)
    moreover have "last (split sep (c # cs)) = last (split sep cs)"
      using split_not_Nil [of sep cs] split_singleton [of sep cs] True
      by (auto split: list.splits)
    ultimately show ?thesis using Cons by simp
  next
    case False
    then have s: "split sep cs = [cs]" by (rule split_no_sep)
    have t: "takeWhile (\<lambda>c. c \<noteq> sep) (rev cs @ [c]) = rev cs @ takeWhile (\<lambda>c. c \<noteq> sep) [c]"
      using False by (intro takeWhile_append2) auto
    show ?thesis by (simp add: s t)
  qed
qed

lemma py_in_sublist: "py_in sub s = sublist sub s"
proof (induction s)
  case Nil
  then show ?case by auto
next
  case (Cons c cs)
  have "take (length sub) (c # cs) = sub \<longleftrightarrow> prefix sub (c # cs)"
    by (metis append_take_drop_id prefix_def append_eq_conv_conj)
  then show ?case using Cons
    by (cases sub) (auto simp: sublist_Cons_right)
qed

section \<open>The history is only ever extended\<close>

lemma update_chat_history_extends:
  "update_chat_history agent q ms = Inr (q', ms') \<Longrightarrow> \<exists>ext. ms' = ms @ ext"
  by (auto simp: update_chat_history_def Let_def
      split: pyval.splits sum.splits if_splits option.splits)

lemma generate_extends:
  assumes "generate agent llm q response_format tls st = (r, q', st')"
  shows "\<exists>ext. messages st' = messages st @ ext"
proof (cases "update_chat_history agent q (messages st)")
  case (Inl e)
  with assms show ?thesis by (simp add: generate_def)
next
  case (Inr p)
  obtain q1 ms where p: "p = (q1, ms)" by (cases p)
  from Inr p obtain ext where ms: "ms = messages st @ ext"
    using update_chat_history_extends by blast
  from assms Inr p ms show ?thesis
    by (auto simp: generate_def Let_def split: sum.splits prod.splits if_splits)
qed

lemma generate_frame:
  assumes "generate agent llm q response_format tls st = (r, q', st')"
  shows "files st' = files st \<and> dirs st' = dirs st"
  using assms
  by (auto simp: generate_def Let_def split: sum.splits prod.splits if_splits)

lemma grows_refl: "grows st st"
  by (simp add: grows_def)

lemma grows_trans: "grows st st1 \<Longrightarrow> grows st1 st2 \<Longrightarrow> grows st st2"
  by (auto simp: grows_def)

lemma grows_dirs_update: "grows st (st'\<lparr>dirs := d\<rparr>) = grows st st'"
  by (simp add: grows_def)

lemma generate_calls:
  assumes "generate agent llm q response_format tls st = (r, q', st')"
  shows "calls st' = calls st \<or>
         (\<exists>c. calls st' = calls st @ [c] \<and> call_model c = model_name llm \<and>
              call_format c = response_format \<and> call_tools c = tls)"
  using assms
  by (auto simp: generate_def Let_def split: sum.splits prod.splits if_splits)

lemma generate_grows:
  assumes "generate agent llm q response_format tls st = (r, q', st')"
  shows "grows st st'"
  using generate_extends [OF assms] generate_calls [OF assms] generate_frame [OF assms]
  by (auto simp: grows_def)

lemma critique_grows:
  assumes "critique sv agent llm response original_query st = (r, st')"
  shows "grows st st'"
  using assms generate_grows
  by (fastforce simp: critique_def split: prod.splits)

lemma grade_plain_text_grows:
  assumes "grade_plain_text agent llm prompt st = (r, st')"
  shows "grows st st'"
proof -
  obtain r0 q0 st0 where g: "generate agent llm (PStr prompt) FormatEmpty NoTools st = (r0, q0, st0)"
    by (cases "generate agent llm (PStr prompt) FormatEmpty NoTools st") auto
  from assms g have "st' = st0"
    by (auto simp: grade_plain_text_def Let_def split: sum.splits pyval.splits if_splits)
  with generate_grows [OF g] show ?thesis by simp
qed

lemma grade_function_calling_grows:
  assumes "grade_function_calling agent llm prompt st = (r, st')"
  shows "grows st st'"
proof -
  obtain r0 q0 st0 where
    g: "generate agent llm (PStr prompt) FormatEmpty EvaluateGradeTool st = (r0, q0, st0)"
    by (cases "generate agent llm (PStr prompt) FormatEmpty EvaluateGradeTool st") auto
  from assms g have "st' = st0"
    by (auto simp: grade_function_calling_def split: sum.splits pyval.splits option.splits if_splits)
  with generate_grows [OF g] show ?thesis by simp
qed

lemma grade_after_schema_grows:
  assumes "grade_after_schema agent llm prompt st = (r, st')"
  shows "grows st st'"
  using assms grade_plain_text_grows grade_function_calling_grows
  by (auto simp: grade_after_schema_def split: if_splits)

lemma grade_grows:
  assumes "grade sv agent llm q generated_response critiqued_response st = (r, st')"
  shows "grows st st'"
proof (cases "schema_selected agent llm")
  case False
  with assms show ?thesis
    by (auto simp: grade_def Let_def intro: grade_after_schema_grows)
next
  case True
  let ?p = "grade_prompt sv q generated_response critiqued_response"
  obtain r0 q0 st0 where
    g: "generate agent llm (PStr ?p) FormatGradeNode EvaluateGradeTool st = (r0, q0, st0)"
    by (cases "generate agent llm (PStr ?p) FormatGradeNode EvaluateGradeTool st") auto
  have st0: "grows st st0" by (rule generate_grows [OF g])
  from assms True g have "st' = st0 \<or> grade_after_schema agent llm ?p st0 = (r, st')"
    by (auto simp: grade_def Let_def split: sum.splits pyval.splits)
  then show ?thesis
    using st0 grade_after_schema_grows grows_trans by blast
qed

lemma iteration_grows:
  assumes "iteration sv agent i L st = (s, L', st')"
  shows "grows st st'"
proof -
  obtain r1 q1 st1 where
    g: "generate agent (generator_llm agent) (l_query L) FormatEmpty NoTools st = (r1, q1, st1)"
    by (cases "generate agent (generator_llm agent) (l_query L) FormatEmpty NoTools st") auto
  have 1: "grows st st1" by (rule generate_grows [OF g])
  show ?thesis
  proof (cases "\<exists>raw. r1 = Inr (PStr raw)")
    case False
    with assms g have "st' = st1"
      by (auto simp: iteration_def Let_def split: sum.splits pyval.splits)
    with 1 show ?thesis by simp
  next
    case True
    then obtain raw where r1: "r1 = Inr (PStr raw)" by blast
    obtain r2 st2 where
      c: "critique sv agent (critique_llm agent) (PStr (final_answer raw)) q1 st1 = (r2, st2)"
      by (cases "critique sv agent (critique_llm agent) (PStr (final_answer raw)) q1 st1") auto
    have 2: "grows st st2" using 1 critique_grows [OF c] by (rule grows_trans)
    show ?thesis
    proof (cases r2)
      case (Inl e)
      with assms g r1 c have "st' = st2"
        by (auto simp: iteration_def Let_def)
      with 2 show ?thesis by simp
    next
      case (Inr crit)
      obtain r3 st3 where
        gr: "grade sv agent (critique_llm agent) q1 (PStr (final_answer raw)) crit st2 = (r3, st3)"
        by (cases "grade sv agent (critique_llm agent) q1 (PStr (final_answer raw)) crit st2") auto
      have 3: "grows st st3" using 2 grade_grows [OF gr] by (rule grows_trans)
      from assms g r1 c Inr gr
      have "st' = st3 \<or> st' = st3\<lparr>dirs := insert ''results'' (dirs st3)\<rparr>"
        by (auto simp: iteration_def Let_def split: sum.splits if_splits)
      with 3 show ?thesis by (auto simp: grows_dirs_update)
    qed
  qed
qed

lemma for_loop_grows:
  "for_loop sv agent xs L st = (x, L', st') \<Longrightarrow> grows st st'"
proof (induction xs arbitrary: L st)
  case Nil
  then show ?case by (simp add: grows_refl)
next
  case (Cons i rest)
  obtain s L1 st1 where it: "iteration sv agent i (L\<lparr>l_i := Some i\<rparr>) st = (s, L1, st1)"
    by (cases "iteration sv agent i (L\<lparr>l_i := Some i\<rparr>) st") auto
  have 1: "grows st st1" by (rule iteration_grows [OF it])
  show ?case
  proof (cases s)
    case (Raises e)
    with Cons.prems it 1 show ?thesis by auto
  next
    case Breaks
    with Cons.prems it 1 show ?thesis by auto
  next
    case Continues
    with Cons.prems it have "for_loop sv agent rest L1 st1 = (x, L', st')" by simp
    from Cons.IH [OF this] 1 show ?thesis by (blast intro: grows_trans)
  qed
qed

section \<open>Running the definitions\<close>

lemmas value_defs =
  truthy_def type_name_def py_str_def AttributeError_def KeyError_def IndexError_def
  UnboundLocalError_def flag_set_def message_dict_def

lemmas stub_defs =
  scripted_def stub_llm_def stub_renderer_def stub_agent_def stub_env_def

lemmas grade_defs =
  grade_def schema_selected_def grade_after_schema_def grade_function_calling_def
  grade_plain_text_def generate_def update_chat_history_def Let_def

lemmas loop_defs =
  invoke_def init_locals_def finish_def iteration_def critique_def final_answer_def

lemmas string_defs =
  lower_def lower_char_def strip_def is_space_def

lemmas eval_defs =
  loop_defs grade_defs value_defs stub_defs string_defs upt_rec
  script_accept_second_def script_never_accept_def script_critic_fails_def
  script_text_grades_def

section \<open>Claims about the history update\<close>

text \<open>
  C7, counterexample. The claim says a list whose last element is a mapping with role
  \<^verbatim>\<open>"assistant"\<close> leaves the conversation state unchanged. On the empty history the
  update returns a history holding that mapping.
\<close>

theorem update_chat_history_assistant_dict_counterexample:
  "update_chat_history (stub_agent 3 None None)
     (PList [PDict [(''role'', PStr ''assistant''), (''content'', PStr ''hi'')]]) [] =
   Inr (PList [PDict [(''role'', PStr ''assistant''), (''content'', PStr ''hi'')]],
        [PDict [(''role'', PStr ''assistant''), (''content'', PStr ''hi'')]])
   \<and> [PDict [(''role'', PStr ''assistant''), (''content'', PStr ''hi'')]] \<noteq> []"
  by (simp add: update_chat_history_def)

text \<open>
  C7, as amended. For a non-empty list query whose last element is not a
  \<^verbatim>\<open>UserMessage\<close> and, when it is a mapping, has a role that is not \<^verbatim>\<open>"user"\<close>: the
  update raises nothing and leaves the query as it is; when the last element is a mapping
  the whole list is appended to the history, and only when it is not a mapping is the
  history left unchanged.
\<close>

theorem update_chat_history_other_shapes:
  assumes "xs \<noteq> []"
    and "\<not> is_user_message (last xs)"
    and "\<forall>d. last xs = PDict d \<longrightarrow> (\<exists>r. map_of d ''role'' = Some r \<and> r \<noteq> PStr ''user'')"
  shows "update_chat_history agent (PList xs) ms =
           Inr (PList xs, if is_dict (last xs) then ms @ xs else ms)"
  using assms
  by (cases "last xs")
     (auto simp: update_chat_history_def is_user_message_def is_dict_def)

theorem update_chat_history_other_shapes_witness:
  "update_chat_history (stub_agent 3 None None)
     (PList [PUserMessage (PStr ''a''), PAIMessage (PStr ''b'')]) [PUserMessage (PStr ''a'')] =
   Inr (PList [PUserMessage (PStr ''a''), PAIMessage (PStr ''b'')], [PUserMessage (PStr ''a'')])
   \<and> update_chat_history (stub_agent 3 None None)
     (PList [PDict [(''role'', PStr ''assistant''), (''content'', PStr ''hi'')]]) [] =
   Inr (PList [PDict [(''role'', PStr ''assistant''), (''content'', PStr ''hi'')]],
        [PDict [(''role'', PStr ''assistant''), (''content'', PStr ''hi'')]])"
  using update_chat_history_other_shapes
          [of "[PUserMessage (PStr ''a''), PAIMessage (PStr ''b'')]"
              "stub_agent 3 None None" "[PUserMessage (PStr ''a'')]"]
        update_chat_history_other_shapes
          [of "[PDict [(''role'', PStr ''assistant''), (''content'', PStr ''hi'')]]"
              "stub_agent 3 None None" "[]"]
  by (simp add: is_user_message_def is_dict_def)

lemma invoke_extends:
  assumes "invoke sv end_time agent q st = (r, L, st')"
  shows "prefix (messages st) (messages st')"
proof -
  obtain x L1 st1 where
    l: "for_loop sv agent [0..<nat (max_iterations agent)] (init_locals q) st = (x, L1, st1)"
    by (cases "for_loop sv agent [0..<nat (max_iterations agent)] (init_locals q) st") auto
  have "prefix (messages st) (messages st1)"
    using for_loop_grows [OF l] by (simp add: grows_def)
  moreover have "messages st' = messages st1"
    using assms l
    by (cases x) (auto simp: invoke_def finish_def Let_def split: option.splits)
  ultimately show ?thesis by simp
qed

text \<open>
  C8. The conversation state is append-only. Whatever the query, whatever the backend
  answers and whether or not an exception is raised: the history after the history
  update, after \<^verbatim>\<open>generate\<close> and after a whole run of \<^verbatim>\<open>invoke\<close> is the history
  before with one block of entries added at its end (so no earlier entry is changed,
  dropped or moved and the length does not decrease).
\<close>

theorem history_append_only:
  "(case update_chat_history agent q ms of
      Inl e \<Rightarrow> True
    | Inr (q', ms') \<Rightarrow> (\<exists>ext. ms' = ms @ ext) \<and> length ms \<le> length ms')
   \<and> (case generate agent llm q response_format tls st of
         (r, q', st') \<Rightarrow>
           (\<exists>ext. messages st' = messages st @ ext) \<and>
           length (messages st) \<le> length (messages st'))
   \<and> (case invoke sv end_time agent q st of
         (r, L, st') \<Rightarrow> \<exists>ext. messages st' = messages st @ ext)"
proof (intro conjI)
  show "case update_chat_history agent q ms of
          Inl e \<Rightarrow> True
        | Inr (q', ms') \<Rightarrow> (\<exists>ext. ms' = ms @ ext) \<and> length ms \<le> length ms'"
    using update_chat_history_extends [of agent q ms]
    by (fastforce split: sum.splits prod.splits)
  show "case generate agent llm q response_format tls st of
          (r, q', st') \<Rightarrow>
            (\<exists>ext. messages st' = messages st @ ext) \<and>
            length (messages st) \<le> length (messages st')"
    using generate_extends [of agent llm q response_format tls st]
    by (fastforce split: prod.splits)
  show "case invoke sv end_time agent q st of
          (r, L, st') \<Rightarrow> \<exists>ext. messages st' = messages st @ ext"
    using invoke_extends [of sv end_time agent q st]
    by (auto simp: prefix_def split: prod.splits)
qed

section \<open>The trace file\<close>

lemma finish_files:
  assumes "finish sv end_time agent L st = (Inr r, L', st')"
  shows "files st' = (files st)(save_path agent \<mapsto> l_res L')"
  using assms by (auto simp: finish_def Let_def split: option.splits)

lemma finish_raises_files:
  assumes "finish sv end_time agent L st = (Inl e, L', st')"
  shows "files st' = files st"
  using assms by (auto simp: finish_def Let_def split: option.splits)

lemma invoke_files:
  assumes "invoke sv end_time agent q st = (Inr r, L, st')"
  shows "files st' = (files st)(save_path agent \<mapsto> l_res L)"
proof -
  obtain x L1 st1 where
    l: "for_loop sv agent [0..<nat (max_iterations agent)] (init_locals q) st = (x, L1, st1)"
    by (cases "for_loop sv agent [0..<nat (max_iterations agent)] (init_locals q) st") auto
  have f: "files st1 = files st"
    using for_loop_grows [OF l] by (simp add: grows_def)
  from assms l have "finish sv end_time agent L1 st1 = (Inr r, L, st')"
    by (cases x) (auto simp: invoke_def)
  from finish_files [OF this] f show ?thesis by simp
qed

text \<open>
  C9. The path of the trace file follows the pattern of the specification, with the
  short names as the specification words them (trailing \<^verbatim>\<open>/\<close>-separated segment,
  segment before the first hyphen); two agents that agree on the five identifiers have
  the same path, whatever their backends and budgets; and a run that returns writes its
  trace to exactly that path and to no other.
\<close>

theorem save_path_deterministic:
  "save_path agent =
     ''prompt_results/'' @ prompt_type agent @ ''_'' @ prompt_pattern agent @
     ''_G_'' @ trailing_segment (model_name (generator_llm agent)) @
     ''_C_'' @ trailing_segment (model_name (critique_llm agent)) @
     ''_'' @ session_id_prefix (session_id agent) @ ''_.txt''
   \<and> (prompt_type agent = prompt_type agent' \<and> prompt_pattern agent = prompt_pattern agent' \<and>
       model_name (generator_llm agent) = model_name (generator_llm agent') \<and>
       model_name (critique_llm agent) = model_name (critique_llm agent') \<and>
       session_id agent = session_id agent' \<longrightarrow> save_path agent = save_path agent')
   \<and> (\<forall>r L st'. invoke sv end_time agent q st = (Inr r, L, st') \<longrightarrow>
         files st' = (files st)(save_path agent \<mapsto> l_res L))"
  by (auto simp: save_path_def trailing_segment_def session_id_prefix_def last_split hd_split
      dest: invoke_files)

theorem save_path_deterministic_witness:
  "save_path (stub_agent 3 None None) = save_path (stub_agent 7 (Some True) (Some True))
   \<and> fst (invoke stub_renderer ''0.01'' (stub_agent 3 None None) (PStr ''What is 2+2?'')
            (stub_env [Inr (PStr ''Final Answer: 4''), Inr (PStr '' 4''), Inr (PStr ''True'')])) =
       Inr (PStr '' 4'')
   \<and> files (snd (snd (invoke stub_renderer ''0.01'' (stub_agent 3 None None)
            (PStr ''What is 2+2?'')
            (stub_env [Inr (PStr ''Final Answer: 4''), Inr (PStr '' 4''), Inr (PStr ''True'')])))) =
       [''prompt_results/cot_react_G_Mixtral-8x7B-Instruct-v0.1_C_gpt-4o_3f2c9a1e_.txt'' \<mapsto>
          l_res (fst (snd (invoke stub_renderer ''0.01'' (stub_agent 3 None None)
            (PStr ''What is 2+2?'')
            (stub_env [Inr (PStr ''Final Answer: 4''), Inr (PStr '' 4''),
                       Inr (PStr ''True'')]))))]"
proof -
  let ?A = "stub_agent 3 None None"
  let ?st = "stub_env [Inr (PStr ''Final Answer: 4''), Inr (PStr '' 4''), Inr (PStr ''True'')]"
  let ?R = "invoke stub_renderer ''0.01'' ?A (PStr ''What is 2+2?'') ?st"
  have r: "fst ?R = Inr (PStr '' 4'')"
    by (simp add: loop_defs grade_defs value_defs stub_defs string_defs upt_rec)
  then have R: "?R = (Inr (PStr '' 4''), fst (snd ?R), snd (snd ?R))"
    by (cases ?R) simp
  have ids: "prompt_type ?A = prompt_type (stub_agent 7 (Some True) (Some True)) \<and>
      prompt_pattern ?A = prompt_pattern (stub_agent 7 (Some True) (Some True)) \<and>
      model_name (generator_llm ?A) =
        model_name (generator_llm (stub_agent 7 (Some True) (Some True))) \<and>
      model_name (critique_llm ?A) =
        model_name (critique_llm (stub_agent 7 (Some True) (Some True))) \<and>
      session_id ?A = session_id (stub_agent 7 (Some True) (Some True))"
    by (simp add: stub_defs)
  have p: "save_path ?A =
      ''prompt_results/cot_react_G_Mixtral-8x7B-Instruct-v0.1_C_gpt-4o_3f2c9a1e_.txt''"
    using save_path_deterministic [of ?A ?A stub_renderer "''0.01''" "PStr ''What is 2+2?''" ?st]
    by (simp add: stub_defs trailing_segment_def session_id_prefix_def)
  have e: "files ?st = Map.empty" by (simp add: stub_env_def)
  from save_path_deterministic
         [of ?A "stub_agent 7 (Some True) (Some True)" stub_renderer "''0.01''"
             "PStr ''What is 2+2?''" ?st]
       ids R r
  have "save_path ?A = save_path (stub_agent 7 (Some True) (Some True))"
    and "files (snd (snd ?R)) = (files ?st)(save_path ?A \<mapsto> l_res (fst (snd ?R)))"
    by blast+
  with r p e show ?thesis by simp
qed

section \<open>Grading a plain-text reply\<close>

lemma grade_plain_text_rule:
  assumes "generate agent llm (PStr prompt) FormatEmpty NoTools st = (Inr (PStr s), q', st')"
  shows "grade_plain_text agent llm prompt st = (Inr (PBool (spec_grade_text s)), st')"
  using assms
  by (simp add: grade_plain_text_def spec_grade_text_def Let_def py_in_sublist)

lemma grade_plain_text_none:
  assumes "generate agent llm (PStr prompt) FormatEmpty NoTools st = (Inr PNone, q', st')"
  shows "grade_plain_text agent llm prompt st = (Inl (AttributeError PNone ''strip''), st')"
  using assms by (simp add: grade_plain_text_def)

lemma spec_grade_text_examples:
  "spec_grade_text ''True''" "\<not> spec_grade_text ''false.''"
  "spec_grade_text ''I think true''" "\<not> spec_grade_text ''true or false''"
  "\<not> spec_grade_text []"
  by (simp_all add: spec_grade_text_def string_defs py_in_sublist [symmetric])

text \<open>
  C4, at the failing input. On the plain-text path (a critic without capability flags)
  the backend replies with the empty string. \<^verbatim>\<open>generate\<close> returns \<^verbatim>\<open>None\<close> for a
  falsy content, and \<^verbatim>\<open>grade_result.strip()\<close> raises \<^verbatim>\<open>AttributeError\<close>: the grade is
  not \<^verbatim>\<open>False\<close>, it is an exception.
\<close>

theorem grade_empty_reply_raises:
  "fst (grade stub_renderer (stub_agent 3 None None) (critique_llm (stub_agent 3 None None))
          (PStr ''What is 2+2?'') (PStr '' 4'') (PStr '' 4'') (stub_env [Inr (PStr [])])) =
   Inl (Exn ''AttributeError'' (CHR 0x27 # ''NoneType'' @ CHR 0x27 # '' object has no attribute '' @
          CHR 0x27 # ''strip'' @ [CHR 0x27]))"
  by (simp add: grade_defs value_defs stub_defs)

section \<open>The marker extraction\<close>

lemma take_eq_prefix: "take (length sub) s = sub \<longleftrightarrow> prefix sub s"
  by (metis append_take_drop_id prefix_def append_eq_conv_conj)

lemma rfind_absent: "\<not> sublist sub s \<Longrightarrow> rfind s sub = - 1"
proof (induction s)
  case Nil
  then show ?case by auto
next
  case (Cons c cs)
  then have "\<not> sublist sub cs" and "\<not> prefix sub (c # cs)"
    by (auto simp: sublist_Cons_right)
  with Cons.IH show ?case by (simp add: take_eq_prefix)
qed

lemma rfind_last:
  assumes "sub \<noteq> []" and "\<not> sublist sub (tl sub @ post)"
  shows "rfind (pre @ sub @ post) sub = int (length pre)"
proof (induction pre)
  case Nil
  from assms obtain c sub' where sub: "sub = c # sub'" by (cases sub) auto
  with assms have "rfind (sub' @ post) sub = - 1" by (simp add: rfind_absent)
  then show ?case by (simp add: sub)
next
  case (Cons a pre)
  then show ?case by simp
qed

lemma no_later_occurrence:
  assumes "m \<noteq> []" and "hd m \<notin> set (tl m)" and "\<not> sublist m post"
  shows "\<not> sublist m (tl m @ post)"
proof
  assume "sublist m (tl m @ post)"
  then obtain ps ss where eq: "tl m @ post = ps @ m @ ss" by (auto simp: sublist_def)
  then consider us where "tl m = ps @ us" "us @ post = m @ ss"
    | us where "tl m @ us = ps" "post = us @ m @ ss"
    by (auto simp: append_eq_append_conv2)
  then show False
  proof cases
    case 1
    show False
    proof (cases us)
      case Nil
      with 1 have "post = [] @ m @ ss" by simp
      with assms(3) show False unfolding sublist_def by blast
    next
      case (Cons u us')
      with 1 assms(1) have "u = hd m" by (cases m) auto
      with 1 Cons have "hd m \<in> set (tl m)" by simp
      with assms(2) show False by simp
    qed
  next
    case 2
    with assms(3) show False unfolding sublist_def by blast
  qed
qed

lemma final_answer_absent:
  "\<not> sublist ''Final Answer'' s \<Longrightarrow> final_answer s = s"
  by (simp add: final_answer_def rfind_absent)

lemma final_answer_present:
  assumes "\<not> sublist ''Final Answer'' post"
  shows "final_answer (pre @ ''Final Answer'' @ post) = drop 1 post"
proof -
  have "\<not> sublist ''Final Answer'' (tl ''Final Answer'' @ post)"
    using assms by (intro no_later_occurrence) simp_all
  then have "rfind (pre @ ''Final Answer'' @ post) ''Final Answer'' = int (length pre)"
    by (intro rfind_last) simp_all
  then show ?thesis
    by (simp add: final_answer_def nat_add_distrib)
qed

lemma generate_user_message:
  assumes "system_prompt agent (PStr p) = Inr text"
  shows "prefix (messages st @ [PUserMessage (PStr text)])
           (messages (snd (snd (generate agent llm (PStr p) response_format tls st))))"
  using assms
  by (auto simp: generate_def update_chat_history_def Let_def
      split: sum.splits prod.splits)

lemma iteration_after_critique:
  assumes g: "generate agent (generator_llm agent) (l_query L) FormatEmpty NoTools st =
                (Inr (PStr raw), q1, st1)"
    and c: "critique sv agent (critique_llm agent) (PStr (final_answer raw)) q1 st1 = (r2, st2)"
  shows "grows st2 (snd (snd (iteration sv agent i L st)))"
proof (cases r2)
  case (Inl e)
  with g c show ?thesis by (simp add: iteration_def Let_def grows_refl)
next
  case (Inr crit)
  obtain r3 st3 where
    gr: "grade sv agent (critique_llm agent) q1 (PStr (final_answer raw)) crit st2 = (r3, st3)"
    by (cases "grade sv agent (critique_llm agent) q1 (PStr (final_answer raw)) crit st2") auto
  have "grows st2 st3" by (rule grade_grows [OF gr])
  with g c Inr gr show ?thesis
    by (cases r3) (auto simp: iteration_def Let_def grows_dirs_update)
qed

lemma iteration_feeds_critique:
  assumes g: "generate agent (generator_llm agent) (l_query L) FormatEmpty NoTools st =
                (Inr (PStr raw), q1, st1)"
    and t: "system_prompt agent (PStr (critique_prompt sv q1 (PStr (final_answer raw)))) = Inr text"
  shows "prefix (messages st1 @ [PUserMessage (PStr text)])
           (messages (snd (snd (iteration sv agent i L st))))"
proof -
  obtain r2 st2 where
    c: "critique sv agent (critique_llm agent) (PStr (final_answer raw)) q1 st1 = (r2, st2)"
    by (cases "critique sv agent (critique_llm agent) (PStr (final_answer raw)) q1 st1") auto
  have "st2 = snd (snd (generate agent (critique_llm agent)
          (PStr (critique_prompt sv q1 (PStr (final_answer raw)))) FormatEmpty NoTools st1))"
    using c by (auto simp: critique_def split: prod.splits)
  with generate_user_message [OF t]
  have "prefix (messages st1 @ [PUserMessage (PStr text)]) (messages st2)" by simp
  moreover have "prefix (messages st2) (messages (snd (snd (iteration sv agent i L st))))"
    using iteration_after_critique [OF g c] by (simp add: grows_def)
  ultimately show ?thesis by (rule prefix_order.trans)
qed

text \<open>
  What holds of the extraction: a response without the marker is used unmodified; when
  the last occurrence of the marker is directly followed by a colon, the extraction is
  exactly the text after that colon; and the extracted text is what the critique prompt
  is built from, that prompt, put through the template, being the user message the
  critique step appends to the history.
\<close>

lemma final_answer_after_colon:
  "(\<not> sublist ''Final Answer'' s \<longrightarrow> final_answer s = s)
   \<and> (\<not> sublist ''Final Answer'' rest \<longrightarrow>
        final_answer (pre @ ''Final Answer:'' @ rest) = rest)
   \<and> (generate agent (generator_llm agent) (l_query L) FormatEmpty NoTools st =
          (Inr (PStr raw), q1, st1) \<and>
        system_prompt agent (PStr (critique_prompt sv q1 (PStr (final_answer raw)))) = Inr text \<longrightarrow>
        prefix (messages st1 @ [PUserMessage (PStr text)])
          (messages (snd (snd (iteration sv agent i L st)))))"
proof (intro conjI impI)
  assume "\<not> sublist ''Final Answer'' s"
  then show "final_answer s = s" by (rule final_answer_absent)
next
  assume "\<not> sublist ''Final Answer'' rest"
  then have "\<not> sublist ''Final Answer'' (CHR '':'' # rest)"
    by (simp add: sublist_Cons_right)
  from final_answer_present [OF this, of pre]
  show "final_answer (pre @ ''Final Answer:'' @ rest) = rest" by simp
next
  assume "generate agent (generator_llm agent) (l_query L) FormatEmpty NoTools st =
            (Inr (PStr raw), q1, st1) \<and>
          system_prompt agent (PStr (critique_prompt sv q1 (PStr (final_answer raw)))) = Inr text"
  then show "prefix (messages st1 @ [PUserMessage (PStr text)])
               (messages (snd (snd (iteration sv agent i L st))))"
    using iteration_feeds_critique by blast
qed

text \<open>
  C5, at the failing input. The response \<^verbatim>\<open>**Final Answer** 42\<close> contains the marker,
  with no colon after it. The substring following the last occurrence of the marker is
  \<^verbatim>\<open>** 42\<close>. The code searches for \<^verbatim>\<open>Final Answer\<close> but skips
  \<^verbatim>\<open>len("Final Answer:")\<close> characters from where it found it, without looking at the
  thirteenth: it yields \<^verbatim>\<open>* 42\<close>, and one character of the answer is lost.
\<close>

theorem final_answer_loses_character:
  "final_answer ''**Final Answer** 42'' = ''* 42''
   \<and> spec_final_answer ''**Final Answer** 42'' = ''** 42''
   \<and> final_answer ''**Final Answer** 42'' \<noteq> spec_final_answer ''**Final Answer** 42''"
  by (simp add: final_answer_def spec_final_answer_def)

section \<open>The loop\<close>

lemma for_loop_append:
  "for_loop sv agent (xs @ ys) L st =
     (case for_loop sv agent xs L st of
        (Exhausted, L', st') \<Rightarrow> for_loop sv agent ys L' st'
      | (Failed e, L', st') \<Rightarrow> (Failed e, L', st')
      | (Accepted, L', st') \<Rightarrow> (Accepted, L', st'))"
proof (induction xs arbitrary: L st)
  case Nil
  then show ?case by simp
next
  case (Cons i rest)
  obtain s L1 st1 where it: "iteration sv agent i (L\<lparr>l_i := Some i\<rparr>) st = (s, L1, st1)"
    by (cases "iteration sv agent i (L\<lparr>l_i := Some i\<rparr>) st") auto
  show ?case
    using it Cons.IH [of L1 st1] by (cases s) simp_all
qed

lemma upt_split_at:
  assumes "0 < k" and "k \<le> n"
  shows "[0..<n] = [0..<k - 1] @ [k - 1] @ [k..<n]"
proof -
  have "[0..<(k - 1) + (n - (k - 1))] = [0..<k - 1] @ [k - 1..<(k - 1) + (n - (k - 1))]"
    by (rule upt_add_eq_append) simp
  moreover from assms have "(k - 1) + (n - (k - 1)) = n" by simp
  ultimately have "[0..<n] = [0..<k - 1] @ [k - 1..<n]" by simp
  moreover from assms have "[k - 1..<n] = (k - 1) # [k..<n]"
    by (simp add: upt_conv_Cons)
  ultimately show ?thesis by simp
qed

lemma iteration_normal:
  assumes "iteration sv agent i L st = (s, L', st')" and "s = Breaks \<or> s = Continues"
  shows "\<exists>raw q1 st1 crit st2 g st3.
           generate agent (generator_llm agent) (l_query L) FormatEmpty NoTools st =
             (Inr (PStr raw), q1, st1) \<and>
           critique sv agent (critique_llm agent) (PStr (final_answer raw)) q1 st1 =
             (Inr crit, st2) \<and>
           grade sv agent (critique_llm agent) q1 (PStr (final_answer raw)) crit st2 =
             (Inr g, st3) \<and>
           (truthy g \<longleftrightarrow> s = Breaks) \<and>
           st' = (if truthy g then st3 else st3\<lparr>dirs := insert ''results'' (dirs st3)\<rparr>) \<and>
           l_generated_response L' = Some (PStr (final_answer raw)) \<and>
           l_query L' = q1 \<and> l_i L' = l_i L"
proof -
  obtain r1 q1 st1 where
    g: "generate agent (generator_llm agent) (l_query L) FormatEmpty NoTools st = (r1, q1, st1)"
    by (cases "generate agent (generator_llm agent) (l_query L) FormatEmpty NoTools st") auto
  from assms g obtain raw where r1: "r1 = Inr (PStr raw)"
    by (auto simp: iteration_def Let_def split: sum.splits pyval.splits)
  obtain r2 st2 where
    c: "critique sv agent (critique_llm agent) (PStr (final_answer raw)) q1 st1 = (r2, st2)"
    by (cases "critique sv agent (critique_llm agent) (PStr (final_answer raw)) q1 st1") auto
  from assms g r1 c obtain crit where r2: "r2 = Inr crit"
    by (cases r2) (auto simp: iteration_def Let_def)
  obtain r3 st3 where
    gr: "grade sv agent (critique_llm agent) q1 (PStr (final_answer raw)) crit st2 = (r3, st3)"
    by (cases "grade sv agent (critique_llm agent) q1 (PStr (final_answer raw)) crit st2") auto
  from assms g r1 c r2 gr obtain gv where r3: "r3 = Inr gv"
    by (cases r3) (auto simp: iteration_def Let_def)
  from assms g r1 c r2 gr r3
  have "(truthy gv \<longleftrightarrow> s = Breaks) \<and>
        st' = (if truthy gv then st3 else st3\<lparr>dirs := insert ''results'' (dirs st3)\<rparr>) \<and>
        l_generated_response L' = Some (PStr (final_answer raw)) \<and>
        l_query L' = q1 \<and> l_i L' = l_i L"
    by (auto simp: iteration_def Let_def split: if_splits)
  with g r1 c r2 gr r3 show ?thesis by blast
qed

lemma for_loop_Accepted:
  "for_loop sv agent xs L st = (Accepted, L', st') \<Longrightarrow>
     \<exists>j L0 st0. j \<in> set xs \<and> iteration sv agent j L0 st0 = (Breaks, L', st')"
proof (induction xs arbitrary: L st)
  case Nil
  then show ?case by simp
next
  case (Cons i rest)
  obtain s L1 st1 where it: "iteration sv agent i (L\<lparr>l_i := Some i\<rparr>) st = (s, L1, st1)"
    by (cases "iteration sv agent i (L\<lparr>l_i := Some i\<rparr>) st") auto
  show ?case
  proof (cases s)
    case (Raises e)
    with Cons.prems it show ?thesis by simp
  next
    case Breaks
    with Cons.prems it show ?thesis by auto
  next
    case Continues
    with Cons.prems it have "for_loop sv agent rest L1 st1 = (Accepted, L', st')" by simp
    from Cons.IH [OF this] show ?thesis by auto
  qed
qed

lemma for_loop_Exhausted_snoc:
  assumes "for_loop sv agent (xs @ [i]) L st = (Exhausted, L', st')"
  shows "\<exists>L1 st1. for_loop sv agent xs L st = (Exhausted, L1, st1) \<and>
           iteration sv agent i (L1\<lparr>l_i := Some i\<rparr>) st1 = (Continues, L', st')"
proof -
  obtain x L1 st1 where l: "for_loop sv agent xs L st = (x, L1, st1)"
    by (cases "for_loop sv agent xs L st") auto
  from assms l have x: "x = Exhausted"
    by (cases x) (auto simp: for_loop_append)
  obtain s L2 st2 where it: "iteration sv agent i (L1\<lparr>l_i := Some i\<rparr>) st1 = (s, L2, st2)"
    by (cases "iteration sv agent i (L1\<lparr>l_i := Some i\<rparr>) st1") auto
  from assms l x it have "s = Continues \<and> L2 = L' \<and> st2 = st'"
    by (cases s) (auto simp: for_loop_append)
  with l x it show ?thesis by simp
qed

lemma invoke_raises_files:
  assumes "invoke sv end_time agent q st = (Inl e, L, st')"
  shows "files st' = files st"
proof -
  obtain x L1 st1 where
    l: "for_loop sv agent [0..<nat (max_iterations agent)] (init_locals q) st = (x, L1, st1)"
    by (cases "for_loop sv agent [0..<nat (max_iterations agent)] (init_locals q) st") auto
  have f: "files st1 = files st"
    using for_loop_grows [OF l] by (simp add: grows_def)
  from assms l f show ?thesis
    by (cases x) (auto simp: invoke_def dest: finish_raises_files)
qed

section \<open>From the grades to the loop\<close>

lemma cycle_steps:
  assumes "cycle sv agent q st = Some (raw, crit, g, q1, st3)"
  shows "\<exists>st1 st2.
           generate agent (generator_llm agent) q FormatEmpty NoTools st =
             (Inr (PStr raw), q1, st1) \<and>
           critique sv agent (critique_llm agent) (PStr (final_answer raw)) q1 st1 =
             (Inr crit, st2) \<and>
           grade sv agent (critique_llm agent) q1 (PStr (final_answer raw)) crit st2 =
             (Inr g, st3)"
  using assms
  by (auto simp: cycle_def split: prod.splits sum.splits pyval.splits)

lemma iteration_of_cycle:
  assumes "cycle sv agent (l_query L) st = Some (raw, crit, g, q1, st3)"
  shows "\<exists>L'. iteration sv agent i L st =
           (if truthy g then Breaks else Continues, L',
            if truthy g then st3 else st3\<lparr>dirs := insert ''results'' (dirs st3)\<rparr>) \<and>
           l_query L' = q1 \<and>
           l_generated_response L' = Some (PStr (final_answer raw)) \<and>
           l_i L' = l_i L"
proof -
  from cycle_steps [OF assms] obtain st1 st2 where
    "generate agent (generator_llm agent) (l_query L) FormatEmpty NoTools st =
       (Inr (PStr raw), q1, st1)"
    and "critique sv agent (critique_llm agent) (PStr (final_answer raw)) q1 st1 =
       (Inr crit, st2)"
    and "grade sv agent (critique_llm agent) q1 (PStr (final_answer raw)) crit st2 =
       (Inr g, st3)"
    by blast
  then show ?thesis
    by (simp add: iteration_def Let_def)
qed

lemma for_loop_rejected_cycles:
  "rejected_cycles sv agent n (l_query L) st = Some (raws, q', st') \<Longrightarrow>
     \<exists>L'. for_loop sv agent [i..<i + n] L st = (Exhausted, L', st') \<and>
          l_query L' = q' \<and> length raws = n \<and>
          (0 < n \<longrightarrow> l_generated_response L' = Some (PStr (final_answer (last raws))) \<and>
                     l_i L' = Some (i + n - 1))"
proof (induction n arbitrary: i L st raws)
  case 0
  then show ?case by simp
next
  case (Suc n)
  from Suc.prems obtain raw crit g q1 st3 raws' where
    c: "cycle sv agent (l_query L) st = Some (raw, crit, g, q1, st3)"
    and g: "\<not> truthy g"
    and rest: "rejected_cycles sv agent n q1 (st3\<lparr>dirs := insert ''results'' (dirs st3)\<rparr>) =
                 Some (raws', q', st')"
    and raws: "raws = raw # raws'"
    by (auto split: option.splits if_splits)
  let ?st1 = "st3\<lparr>dirs := insert ''results'' (dirs st3)\<rparr>"
  from c have "cycle sv agent (l_query (L\<lparr>l_i := Some i\<rparr>)) st = Some (raw, crit, g, q1, st3)"
    by simp
  from iteration_of_cycle [OF this, of i] g obtain L1 where
    it: "iteration sv agent i (L\<lparr>l_i := Some i\<rparr>) st = (Continues, L1, ?st1)"
    and q1: "l_query L1 = q1"
    and r1: "l_generated_response L1 = Some (PStr (final_answer raw))"
    and i1: "l_i L1 = Some i"
    by auto
  from rest q1 have "rejected_cycles sv agent n (l_query L1) ?st1 = Some (raws', q', st')"
    by simp
  from Suc.IH [OF this, of "Suc i"] obtain L' where
    loop: "for_loop sv agent [Suc i..<Suc i + n] L1 ?st1 = (Exhausted, L', st')"
    and q': "l_query L' = q'"
    and len: "length raws' = n"
    and last: "0 < n \<longrightarrow> l_generated_response L' = Some (PStr (final_answer (last raws'))) \<and>
                 l_i L' = Some (Suc i + n - 1)"
    by blast
  have "[i..<i + Suc n] = i # [Suc i..<Suc i + n]"
    by (simp add: upt_conv_Cons)
  with it loop have 1: "for_loop sv agent [i..<i + Suc n] L st = (Exhausted, L', st')"
    by simp
  have 2: "l_generated_response L' = Some (PStr (final_answer (last raws))) \<and>
           l_i L' = Some (i + Suc n - 1)"
  proof (cases n)
    case 0
    with loop len r1 i1 raws show ?thesis by simp
  next
    case (Suc m)
    with last len raws show ?thesis by auto
  qed
  from 1 2 q' len raws show ?case by auto
qed

lemma for_loop_stops_at_break:
  assumes k: "0 < k" "k \<le> nat (max_iterations agent)"
    and before: "for_loop sv agent [0..<k - 1] (init_locals q) st = (Exhausted, L1, st1)"
    and accept: "iteration sv agent (k - 1) (L1\<lparr>l_i := Some (k - 1)\<rparr>) st1 = (Breaks, L2, st2)"
  shows "for_loop sv agent [0..<nat (max_iterations agent)] (init_locals q) st =
           (Accepted, L2, st2)
         \<and> l_i L2 = Some (k - 1)
         \<and> (\<exists>r L3 st3. invoke sv end_time agent q st = (Inr r, L3, st3) \<and>
               l_generated_response L2 = Some r \<and>
               calls st3 = calls st2 \<and> world st3 = world st2 \<and> messages st3 = messages st2)
         \<and> (\<forall>n L' st'. for_loop sv agent [0..<n] (init_locals q) st = (Accepted, L', st') \<longrightarrow>
               (\<exists>j L0 st0 q0 g c s0 gv. j < n \<and>
                  iteration sv agent j L0 st0 = (Breaks, L', st') \<and>
                  grade sv agent (critique_llm agent) q0 g c s0 = (Inr gv, st') \<and> truthy gv))"
proof (intro conjI allI impI)
  let ?n = "nat (max_iterations agent)"
  have "[0..<?n] = [0..<k - 1] @ [k - 1] @ [k..<?n]"
    using k by (rule upt_split_at)
  then have "for_loop sv agent [0..<?n] (init_locals q) st =
      for_loop sv agent ([0..<k - 1] @ [k - 1] @ [k..<?n]) (init_locals q) st"
    by simp
  also have "\<dots> = for_loop sv agent ([k - 1] @ [k..<?n]) L1 st1"
    by (simp only: for_loop_append [of sv agent "[0..<k - 1]"] before) simp
  also have "\<dots> = (Accepted, L2, st2)"
    using accept by simp
  finally show loop: "for_loop sv agent [0..<?n] (init_locals q) st = (Accepted, L2, st2)" .
  from iteration_normal [OF accept] obtain raw
    where gen: "l_generated_response L2 = Some (PStr (final_answer raw))"
      and i: "l_i L2 = l_i (L1\<lparr>l_i := Some (k - 1)\<rparr>)"
    by blast
  from i show "l_i L2 = Some (k - 1)" by simp
  from loop gen
  show "\<exists>r L3 st3. invoke sv end_time agent q st = (Inr r, L3, st3) \<and>
          l_generated_response L2 = Some r \<and>
          calls st3 = calls st2 \<and> world st3 = world st2 \<and> messages st3 = messages st2"
    by (simp add: invoke_def finish_def Let_def)
next
  fix n L' st'
  assume "for_loop sv agent [0..<n] (init_locals q) st = (Accepted, L', st')"
  from for_loop_Accepted [OF this] obtain j L0 st0
    where j: "j < n" and it: "iteration sv agent j L0 st0 = (Breaks, L', st')"
    by auto
  from iteration_normal [OF it] obtain raw q1 crit st2 g st3
    where gr: "grade sv agent (critique_llm agent) q1 (PStr (final_answer raw)) crit st2 =
                 (Inr g, st3)"
      and t: "truthy g"
      and "st' = (if truthy g then st3 else st3\<lparr>dirs := insert ''results'' (dirs st3)\<rparr>)"
    by auto
  then have "grade sv agent (critique_llm agent) q1 (PStr (final_answer raw)) crit st2 =
               (Inr g, st')"
    by simp
  with j it t
  show "\<exists>j L0 st0 q0 g c s0 gv. j < n \<and>
          iteration sv agent j L0 st0 = (Breaks, L', st') \<and>
          grade sv agent (critique_llm agent) q0 g c s0 = (Inr gv, st') \<and> truthy gv"
    by blast
qed

text \<open>
  C1. Let the grading step return a truthy value for the first time on iteration \<open>k\<close>,
  within the budget: the first \<open>k - 1\<close> cycles raise nothing and are all graded falsy,
  and in cycle \<open>k\<close> the generate step returns \<open>raw\<close>, the critique step returns and
  the grade step returns a truthy \<open>g\<close>, leaving the state \<open>st2\<close>. Then the loop over
  the whole budget ends accepted, in the very state \<open>st2\<close> in which the accepting grade
  returned and with the loop variable at \<open>k - 1\<close>: \<open>k\<close> cycles, the remaining indices
  are never run. \<^verbatim>\<open>invoke\<close> then returns the response of cycle \<open>k\<close> (after the marker
  extraction), and between the accepting grade and the return no backend is called: the
  log of calls, the backends' state and the history are those of the accepting grade.
  Conversely, for any budget, the loop ends accepted only in a state in which an
  iteration has just taken the \<^verbatim>\<open>break\<close>, which it does only on a truthy grade; every
  other normal end is exhaustion. (The test in the source is \<^verbatim>\<open>if grade_output:\<close>, so
  what counts is truthiness.)
\<close>

theorem invoke_stops_at_first_acceptance:
  assumes k: "0 < k" "k \<le> nat (max_iterations agent)"
    and before: "rejected_cycles sv agent (k - 1) q st = Some (raws, q1, st1)"
    and round: "cycle sv agent q1 st1 = Some (raw, crit, g, q2, st2)"
    and accept: "truthy g"
  shows "\<exists>L2 L3 st3.
           for_loop sv agent [0..<nat (max_iterations agent)] (init_locals q) st =
             (Accepted, L2, st2) \<and>
           l_i L2 = Some (k - 1) \<and>
           invoke sv end_time agent q st = (Inr (PStr (final_answer raw)), L3, st3) \<and>
           calls st3 = calls st2 \<and> world st3 = world st2 \<and> messages st3 = messages st2 \<and>
           (\<forall>n L' st'. for_loop sv agent [0..<n] (init_locals q) st = (Accepted, L', st') \<longrightarrow>
              (\<exists>j L0 st0 q0 g c s0 gv. j < n \<and>
                 iteration sv agent j L0 st0 = (Breaks, L', st') \<and>
                 grade sv agent (critique_llm agent) q0 g c s0 = (Inr gv, st') \<and> truthy gv))"
proof -
  have "rejected_cycles sv agent (k - 1) (l_query (init_locals q)) st = Some (raws, q1, st1)"
    using before by (simp add: init_locals_def)
  from for_loop_rejected_cycles [OF this, of 0] obtain L1 where
    loop1: "for_loop sv agent [0..<k - 1] (init_locals q) st = (Exhausted, L1, st1)"
    and q1: "l_query L1 = q1"
    by auto
  from round q1
  have "cycle sv agent (l_query (L1\<lparr>l_i := Some (k - 1)\<rparr>)) st1 = Some (raw, crit, g, q2, st2)"
    by simp
  from iteration_of_cycle [OF this, of "k - 1"] accept obtain L2 where
    it: "iteration sv agent (k - 1) (L1\<lparr>l_i := Some (k - 1)\<rparr>) st1 = (Breaks, L2, st2)"
    and resp: "l_generated_response L2 = Some (PStr (final_answer raw))"
    by auto
  from for_loop_stops_at_break [OF k loop1 it, of end_time] resp
  show ?thesis by auto
qed

theorem invoke_stops_at_first_acceptance_witness:
  "fst (for_loop stub_renderer (stub_agent 3 None None)
          [0..<nat (max_iterations (stub_agent 3 None None))]
          (init_locals (PStr ''What is 2+2?'')) (stub_env script_accept_second)) = Accepted
   \<and> l_i (fst (snd (for_loop stub_renderer (stub_agent 3 None None)
          [0..<nat (max_iterations (stub_agent 3 None None))]
          (init_locals (PStr ''What is 2+2?'')) (stub_env script_accept_second)))) = Some 1
   \<and> fst (invoke stub_renderer ''0.01'' (stub_agent 3 None None) (PStr ''What is 2+2?'')
          (stub_env script_accept_second)) = Inr (PStr '' 4'')"
proof -
  let ?A = "stub_agent 3 None None"
  let ?q = "PStr ''What is 2+2?''"
  let ?st = "stub_env script_accept_second"
  let ?X = "rejected_cycles stub_renderer ?A (2 - 1) ?q ?st"
  let ?st1 = "snd (snd (the ?X))"
  let ?Y = "cycle stub_renderer ?A ?q ?st1"
  let ?st2 = "snd (snd (snd (snd (the ?Y))))"
  have "\<exists>s. ?X = Some ([''Final Answer: 5''], ?q, s)"
    by (simp add: cycle_def eval_defs)
  then have x: "?X = Some ([''Final Answer: 5''], ?q, ?st1)"
    by auto
  have "\<exists>s. ?Y = Some (''Final Answer: 4'', PStr '' 4'', PBool True, ?q, s)"
    by (simp add: cycle_def eval_defs)
  then have y: "?Y = Some (''Final Answer: 4'', PStr '' 4'', PBool True, ?q, ?st2)"
    by auto
  have k: "(0::nat) < 2" "(2::nat) \<le> nat (max_iterations ?A)"
    by (simp_all add: stub_defs)
  have t: "truthy (PBool True)" by (simp add: truthy_def)
  have f: "final_answer ''Final Answer: 4'' = '' 4''" by (simp add: final_answer_def)
  from invoke_stops_at_first_acceptance [OF k x y t, of "''0.01''"] obtain L2 L3 st3 where
    "for_loop stub_renderer ?A [0..<nat (max_iterations ?A)] (init_locals ?q) ?st =
       (Accepted, L2, ?st2)"
    and "l_i L2 = Some (2 - 1)"
    and "invoke stub_renderer ''0.01'' ?A ?q ?st =
       (Inr (PStr (final_answer ''Final Answer: 4'')), L3, st3)"
    by blast
  with f show ?thesis by simp
qed

lemma for_loop_exhausted_returns_last:
  assumes n: "0 < n" "n = nat (max_iterations agent)"
    and run: "for_loop sv agent [0..<n] (init_locals q) st = (Exhausted, L', st')"
  shows "\<exists>L1 st1 raw q1 st2 L3 st3.
           for_loop sv agent [0..<n - 1] (init_locals q) st = (Exhausted, L1, st1) \<and>
           iteration sv agent (n - 1) (L1\<lparr>l_i := Some (n - 1)\<rparr>) st1 = (Continues, L', st') \<and>
           generate agent (generator_llm agent) (l_query L1) FormatEmpty NoTools st1 =
             (Inr (PStr raw), q1, st2) \<and>
           l_i L' = Some (n - 1) \<and>
           invoke sv end_time agent q st = (Inr (PStr (final_answer raw)), L3, st3) \<and>
           (\<not> sublist ''Final Answer'' raw \<longrightarrow> final_answer raw = raw) \<and>
           calls st3 = calls st' \<and> world st3 = world st' \<and> messages st3 = messages st'"
proof -
  from n(1) have "[0..<n] = [0..<n - 1] @ [n - 1]"
    by (cases n) simp_all
  with run have "for_loop sv agent ([0..<n - 1] @ [n - 1]) (init_locals q) st = (Exhausted, L', st')"
    by simp
  from for_loop_Exhausted_snoc [OF this] obtain L1 st1
    where before: "for_loop sv agent [0..<n - 1] (init_locals q) st = (Exhausted, L1, st1)"
      and last: "iteration sv agent (n - 1) (L1\<lparr>l_i := Some (n - 1)\<rparr>) st1 = (Continues, L', st')"
    by blast
  from iteration_normal [OF last] obtain raw q1 st2
    where gen: "generate agent (generator_llm agent) (l_query (L1\<lparr>l_i := Some (n - 1)\<rparr>))
                  FormatEmpty NoTools st1 = (Inr (PStr raw), q1, st2)"
      and resp: "l_generated_response L' = Some (PStr (final_answer raw))"
      and i: "l_i L' = l_i (L1\<lparr>l_i := Some (n - 1)\<rparr>)"
    by blast
  from run n resp
  have "\<exists>L3 st3. invoke sv end_time agent q st = (Inr (PStr (final_answer raw)), L3, st3) \<and>
          calls st3 = calls st' \<and> world st3 = world st' \<and> messages st3 = messages st'"
    by (simp add: invoke_def finish_def Let_def)
  with before last gen i final_answer_absent [of raw] show ?thesis by auto
qed



lemma iteration_step_raises:
  "(generate agent (generator_llm agent) (l_query L) FormatEmpty NoTools st = (Inl e, q1, st1) \<longrightarrow>
      iteration sv agent i L st = (Raises e, L\<lparr>l_query := q1\<rparr>, st1))
   \<and> (generate agent (generator_llm agent) (l_query L) FormatEmpty NoTools st =
         (Inr (PStr raw), q1, st1) \<and>
       critique sv agent (critique_llm agent) (PStr (final_answer raw)) q1 st1 = (Inl e, st2) \<longrightarrow>
      fst (iteration sv agent i L st) = Raises e \<and> snd (snd (iteration sv agent i L st)) = st2)
   \<and> (generate agent (generator_llm agent) (l_query L) FormatEmpty NoTools st =
         (Inr (PStr raw), q1, st1) \<and>
       critique sv agent (critique_llm agent) (PStr (final_answer raw)) q1 st1 = (Inr crit, st2) \<and>
       grade sv agent (critique_llm agent) q1 (PStr (final_answer raw)) crit st2 = (Inl e, st3) \<longrightarrow>
      fst (iteration sv agent i L st) = Raises e \<and> snd (snd (iteration sv agent i L st)) = st3)"
  by (simp add: iteration_def Let_def)

text \<open>
  C6. Let the iterations before iteration \<open>j + 1\<close> run to exhaustion and let iteration
  \<open>j + 1\<close> raise \<open>e\<close>, as it does when its generate, critique or grade step raises
  \<open>e\<close> (lemma \<open>iteration_step_raises\<close>). Then
  \<^verbatim>\<open>invoke\<close> raises the same \<open>e\<close>; the trace at that moment is the trace at the
  raise with the error entry of that iteration appended; the state is the state at the
  raise, so nothing was retried and no later iteration was started; and no file was
  written, as on every raising run of \<^verbatim>\<open>invoke\<close>: the trace is lost with the local
  variable that held it.
\<close>

theorem invoke_fails_fast:
  assumes j: "j < nat (max_iterations agent)"
    and before: "for_loop sv agent [0..<j] (init_locals q) st = (Exhausted, L1, st1)"
    and raise: "iteration sv agent j (L1\<lparr>l_i := Some j\<rparr>) st1 = (Raises e, L2, st2)"
  shows "invoke sv end_time agent q st =
           (Inl e, L2\<lparr>l_res := l_res L2 @ error_entry e j\<rparr>, st2)
         \<and> files st2 = files st
         \<and> (\<forall>e' L' st'. invoke sv end_time agent q st = (Inl e', L', st') \<longrightarrow>
               files st' = files st)"
proof (intro conjI allI impI)
  let ?n = "nat (max_iterations agent)"
  from j have "[0..<?n] = [0..<j] @ [j] @ [Suc j..<?n]"
    using upt_split_at [of "Suc j" ?n] by simp
  then have "for_loop sv agent [0..<?n] (init_locals q) st =
      for_loop sv agent ([0..<j] @ [j] @ [Suc j..<?n]) (init_locals q) st"
    by simp
  also have "\<dots> = for_loop sv agent ([j] @ [Suc j..<?n]) L1 st1"
    by (simp only: for_loop_append [of sv agent "[0..<j]"] before) simp
  also have "\<dots> = (Failed e, L2\<lparr>l_res := l_res L2 @ error_entry e j\<rparr>, st2)"
    using raise by simp
  finally show inv: "invoke sv end_time agent q st =
      (Inl e, L2\<lparr>l_res := l_res L2 @ error_entry e j\<rparr>, st2)"
    by (simp add: invoke_def)
  from invoke_raises_files [OF inv] show "files st2 = files st" .
next
  fix e' L' st'
  assume "invoke sv end_time agent q st = (Inl e', L', st')"
  then show "files st' = files st" by (rule invoke_raises_files)
qed

theorem invoke_fails_fast_witness:
  "fst (invoke stub_renderer ''0.01'' (stub_agent 3 None None) (PStr ''What is 2+2?'')
          (stub_env script_critic_fails)) = Inl (Exn ''RuntimeError'' ''backend unavailable'')
   \<and> l_res (fst (snd (invoke stub_renderer ''0.01'' (stub_agent 3 None None)
          (PStr ''What is 2+2?'') (stub_env script_critic_fails)))) =
       ''===== Epoch 1 =====\<newline>\<newline>**Generated Response**:\<newline>\<newline>Final Answer: 5\<newline>\<newline>'' @
       ''\<newline>\<newline>**Error occurred backend unavailable in iteration 1**\<newline>\<newline>''
   \<and> files (snd (snd (invoke stub_renderer ''0.01'' (stub_agent 3 None None)
          (PStr ''What is 2+2?'') (stub_env script_critic_fails)))) = Map.empty
   \<and> length (calls (snd (snd (invoke stub_renderer ''0.01'' (stub_agent 3 None None)
          (PStr ''What is 2+2?'') (stub_env script_critic_fails))))) = 2"
proof -
  let ?A = "stub_agent 3 None None"
  let ?q = "PStr ''What is 2+2?''"
  let ?st = "stub_env script_critic_fails"
  let ?Y = "iteration stub_renderer ?A 0 ((init_locals ?q)\<lparr>l_i := Some 0\<rparr>) ?st"
  have x: "for_loop stub_renderer ?A [0..<0] (init_locals ?q) ?st =
             (Exhausted, init_locals ?q, ?st)"
    by simp
  have "fst ?Y = Raises (Exn ''RuntimeError'' ''backend unavailable'')"
    by (simp add: eval_defs)
  then have y: "?Y = (Raises (Exn ''RuntimeError'' ''backend unavailable''),
                      fst (snd ?Y), snd (snd ?Y))"
    by (cases ?Y) simp
  have n: "(0::nat) < nat (max_iterations ?A)" by (simp add: stub_defs)
  have r: "l_res (fst (snd ?Y)) =
      ''===== Epoch 1 =====\<newline>\<newline>**Generated Response**:\<newline>\<newline>Final Answer: 5\<newline>\<newline>''"
    by (simp add: eval_defs epoch_header_def generated_entry_def)
  have c: "length (calls (snd (snd ?Y))) = 2"
    by (simp add: eval_defs)
  have f: "files ?st = Map.empty" by (simp add: stub_env_def)
  from invoke_fails_fast [OF n x y, of "''0.01''"] r c f
  show ?thesis
    by (simp add: error_entry_def)
qed

section \<open>The grading dispatch\<close>

lemma generate_PStr_unfold:
  assumes "generate agent llm (PStr p) response_format tls st = (Inr v, q', st')"
  shows "\<exists>text flat reply.
           system_prompt agent (PStr p) = Inr text \<and>
           v = (if truthy reply then reply else PNone) \<and>
           calls st' = calls st @
             [\<lparr>call_model = model_name llm, call_messages = flat,
               call_format = response_format, call_tools = tls, call_reply = Inr reply\<rparr>] \<and>
           messages st' = messages st @
             PUserMessage (PStr text) # (if truthy reply then [PAIMessage reply] else [])"
proof -
  obtain tx where t: "system_prompt agent (PStr p) = Inr tx"
    using assms
    by (cases "system_prompt agent (PStr p)") (auto simp: generate_def update_chat_history_def)
  then have u: "update_chat_history agent (PStr p) (messages st) =
                  Inr (PStr p, messages st @ [PUserMessage (PStr tx)])"
    by (simp add: update_chat_history_def)
  obtain flat where f: "flatten (messages st @ [PUserMessage (PStr tx)]) = Inr flat"
    using assms u
    by (cases "flatten (messages st @ [PUserMessage (PStr tx)])") (auto simp: generate_def)
  obtain rp w where l: "llm_content llm (world st) flat response_format tls = (rp, w)"
    by (cases "llm_content llm (world st) flat response_format tls") auto
  obtain reply where r: "rp = Inr reply"
    using assms u f l by (cases rp) (auto simp: generate_def)
  from assms u f l r
  have "v = (if truthy reply then reply else PNone)"
    and "calls st' = calls st @
             [\<lparr>call_model = model_name llm, call_messages = flat,
               call_format = response_format, call_tools = tls, call_reply = Inr reply\<rparr>]"
    and "messages st' = messages st @
             PUserMessage (PStr tx) # (if truthy reply then [PAIMessage reply] else [])"
    by (auto simp: generate_def Let_def split: if_splits)
  with t show ?thesis by blast
qed

lemma generate_PStr_Inr:
  assumes "generate agent llm (PStr p) response_format tls st = (Inr v, q', st')"
  shows "\<exists>text c reply.
           system_prompt agent (PStr p) = Inr text \<and>
           calls st' = calls st @ [c] \<and>
           call_format c = response_format \<and> call_tools c = tls \<and>
           call_reply c = Inr reply \<and> v = (if truthy reply then reply else PNone) \<and>
           messages st' = messages st @ call_entries text c"
proof -
  from generate_PStr_unfold [OF assms] obtain tx flat reply where
    t: "system_prompt agent (PStr p) = Inr tx"
    and v: "v = (if truthy reply then reply else PNone)"
    and c: "calls st' = calls st @
             [\<lparr>call_model = model_name llm, call_messages = flat,
               call_format = response_format, call_tools = tls, call_reply = Inr reply\<rparr>]"
    and m: "messages st' = messages st @
             PUserMessage (PStr tx) # (if truthy reply then [PAIMessage reply] else [])"
    by blast
  let ?c = "\<lparr>call_model = model_name llm, call_messages = flat,
             call_format = response_format, call_tools = tls, call_reply = Inr reply\<rparr>"
  have "messages st' = messages st @ call_entries tx ?c"
    using m by (simp add: call_entries_def)
  with t v c show ?thesis
    by (intro exI [of _ tx] exI [of _ ?c] exI [of _ reply]) simp
qed

lemma length_call_entries: "length (call_entries text c) = call_growth c"
  by (auto simp: call_entries_def call_growth_def reply_truthy_def split: sum.splits)

lemma grade_plain_text_Inr:
  assumes "grade_plain_text agent llm p st = (Inr v, st')"
  shows "\<exists>text c. system_prompt agent (PStr p) = Inr text \<and>
           calls st' = calls st @ [c] \<and> call_format c = FormatEmpty \<and> call_tools c = NoTools \<and>
           messages st' = messages st @ call_entries text c"
proof -
  obtain r0 q0 st0 where g: "generate agent llm (PStr p) FormatEmpty NoTools st = (r0, q0, st0)"
    by (cases "generate agent llm (PStr p) FormatEmpty NoTools st") auto
  from assms g obtain v0 where "r0 = Inr v0" and "st' = st0"
    by (cases r0) (auto simp: grade_plain_text_def Let_def split: pyval.splits if_splits)
  with g generate_PStr_Inr [of agent llm p FormatEmpty NoTools st v0 q0 st0]
  show ?thesis by auto
qed

lemma grade_function_calling_Inr:
  assumes "grade_function_calling agent llm p st = (Inr v, st')"
  shows "\<exists>text c. system_prompt agent (PStr p) = Inr text \<and>
           calls st' = calls st @ [c] \<and>
           call_format c = FormatEmpty \<and> call_tools c = EvaluateGradeTool \<and>
           messages st' = messages st @ call_entries text c"
proof -
  obtain r0 q0 st0 where
    g: "generate agent llm (PStr p) FormatEmpty EvaluateGradeTool st = (r0, q0, st0)"
    by (cases "generate agent llm (PStr p) FormatEmpty EvaluateGradeTool st") auto
  from assms g obtain v0 where "r0 = Inr v0" and "st' = st0"
    by (cases r0)
       (auto simp: grade_function_calling_def split: pyval.splits option.splits if_splits)
  with g generate_PStr_Inr [of agent llm p FormatEmpty EvaluateGradeTool st v0 q0 st0]
  show ?thesis by auto
qed

lemma grade_after_schema_Inr:
  assumes "grade_after_schema agent llm p st = (Inr v, st')"
  shows "\<exists>text c. system_prompt agent (PStr p) = Inr text \<and>
           calls st' = calls st @ [c] \<and> call_format c = FormatEmpty \<and>
           messages st' = messages st @ call_entries text c"
  using assms grade_function_calling_Inr [of agent llm p st v st']
    grade_plain_text_Inr [of agent llm p st v st']
  by (auto simp: grade_after_schema_def split: if_splits)

lemma grade_function_calling_one_call:
  assumes "grade_function_calling agent llm p st = (r, st')"
  shows "length (calls st') \<le> Suc (length (calls st))"
proof -
  obtain r0 q0 st0 where
    g: "generate agent llm (PStr p) FormatEmpty EvaluateGradeTool st = (r0, q0, st0)"
    by (cases "generate agent llm (PStr p) FormatEmpty EvaluateGradeTool st") auto
  from assms g have "st' = st0"
    by (auto simp: grade_function_calling_def split: sum.splits pyval.splits option.splits if_splits)
  with generate_calls [OF g] show ?thesis by auto
qed

lemma grade_not_grade_node:
  assumes sel: "schema_selected agent llm"
    and g: "generate agent llm (PStr (grade_prompt sv q gen crit)) FormatGradeNode
              EvaluateGradeTool st = (Inr r, q', st1)"
    and r: "\<not> is_grade_node r"
  shows "grade sv agent llm q gen crit st =
           grade_after_schema agent llm (grade_prompt sv q gen crit) st1"
  using assms
  by (cases r) (simp_all add: grade_def Let_def is_grade_node_def)

text \<open>
  C3, counterexample. The critic advertises both capabilities, so the structured-schema
  path is selected, and it replies with the text \<^verbatim>\<open>True\<close>, which is not a
  \<^verbatim>\<open>GradeNode\<close>. Grading then calls the backend a second time, with the tool
  definition and without the schema: the function-calling strategy.
\<close>

theorem grade_schema_fall_through_counterexample:
  "schema_selected (stub_agent 3 (Some True) (Some True))
     (critique_llm (stub_agent 3 (Some True) (Some True)))
   \<and> length (calls (snd (grade stub_renderer (stub_agent 3 (Some True) (Some True))
         (critique_llm (stub_agent 3 (Some True) (Some True)))
         (PStr ''What is 2+2?'') (PStr '' 4'') (PStr '' 4'')
         (stub_env [Inr (PStr ''True''), Inr (PStr ''True'')])))) = 2
   \<and> call_format (calls (snd (grade stub_renderer (stub_agent 3 (Some True) (Some True))
         (critique_llm (stub_agent 3 (Some True) (Some True)))
         (PStr ''What is 2+2?'') (PStr '' 4'') (PStr '' 4'')
         (stub_env [Inr (PStr ''True''), Inr (PStr ''True'')]))) ! 0) = FormatGradeNode
   \<and> call_format (calls (snd (grade stub_renderer (stub_agent 3 (Some True) (Some True))
         (critique_llm (stub_agent 3 (Some True) (Some True)))
         (PStr ''What is 2+2?'') (PStr '' 4'') (PStr '' 4'')
         (stub_env [Inr (PStr ''True''), Inr (PStr ''True'')]))) ! 1) = FormatEmpty
   \<and> call_tools (calls (snd (grade stub_renderer (stub_agent 3 (Some True) (Some True))
         (critique_llm (stub_agent 3 (Some True) (Some True)))
         (PStr ''What is 2+2?'') (PStr '' 4'') (PStr '' 4'')
         (stub_env [Inr (PStr ''True''), Inr (PStr ''True'')]))) ! 1) = EvaluateGradeTool"
  by (simp add: grade_defs value_defs stub_defs)

text \<open>
  C3, as amended. When the structured-schema path is selected and its result is not a
  \<^verbatim>\<open>GradeNode\<close>, grading goes on, from the state the first call left, with the
  function-calling strategy if the backend it grades with advertises parallel function
  calling, and with the plain-text strategy otherwise. When that backend is the critic
  backend, as in \<^verbatim>\<open>invoke\<close>, it is always the function-calling strategy. The
  function-calling strategy itself makes one backend call at most: its fallback to the
  text check stays inside it and never reaches the plain-text strategy.
\<close>

theorem grade_schema_fall_through:
  assumes sel: "schema_selected agent llm"
    and g: "generate agent llm (PStr (grade_prompt sv q gen crit)) FormatGradeNode
              EvaluateGradeTool st = (Inr r, q', st1)"
    and r: "\<not> is_grade_node r"
  shows "grade sv agent llm q gen crit st =
           (if flag_set (supports_parallel_function_calling llm)
            then grade_function_calling agent llm (grade_prompt sv q gen crit) st1
            else grade_plain_text agent llm (grade_prompt sv q gen crit) st1)
         \<and> (llm = critique_llm agent \<longrightarrow>
              grade sv agent llm q gen crit st =
                grade_function_calling agent llm (grade_prompt sv q gen crit) st1)
         \<and> (\<forall>p s r' s'. grade_function_calling agent llm p s = (r', s') \<longrightarrow>
              length (calls s') \<le> Suc (length (calls s)))"
  using grade_not_grade_node [OF assms] sel grade_function_calling_one_call
  by (auto simp: grade_after_schema_def schema_selected_def)

theorem grade_schema_fall_through_witness:
  "grade stub_renderer (stub_agent 3 (Some True) (Some True))
     (critique_llm (stub_agent 3 (Some True) (Some True)))
     (PStr ''What is 2+2?'') (PStr '' 4'') (PStr '' 4'')
     (stub_env [Inr (PStr ''True''), Inr (PStr ''True'')]) =
   grade_function_calling (stub_agent 3 (Some True) (Some True))
     (critique_llm (stub_agent 3 (Some True) (Some True)))
     (grade_prompt stub_renderer (PStr ''What is 2+2?'') (PStr '' 4'') (PStr '' 4''))
     (snd (snd (generate (stub_agent 3 (Some True) (Some True))
        (critique_llm (stub_agent 3 (Some True) (Some True)))
        (PStr (grade_prompt stub_renderer (PStr ''What is 2+2?'') (PStr '' 4'') (PStr '' 4'')))
        FormatGradeNode EvaluateGradeTool
        (stub_env [Inr (PStr ''True''), Inr (PStr ''True'')]))))"
proof -
  let ?A = "stub_agent 3 (Some True) (Some True)"
  let ?p = "grade_prompt stub_renderer (PStr ''What is 2+2?'') (PStr '' 4'') (PStr '' 4'')"
  let ?st = "stub_env [Inr (PStr ''True''), Inr (PStr ''True'')]"
  let ?G = "generate ?A (critique_llm ?A) (PStr ?p) FormatGradeNode EvaluateGradeTool ?st"
  have sel: "schema_selected ?A (critique_llm ?A)"
    by (simp add: schema_selected_def flag_set_def stub_defs)
  have "fst ?G = Inr (PStr ''True'')"
    by (simp add: generate_def update_chat_history_def Let_def value_defs stub_defs)
  then have g: "?G = (Inr (PStr ''True''), fst (snd ?G), snd (snd ?G))"
    by (cases ?G) simp
  have r: "\<not> is_grade_node (PStr ''True'')" by (simp add: is_grade_node_def)
  from grade_schema_fall_through [OF sel g r] show ?thesis by blast
qed

section \<open>Grading and the history\<close>

lemma reply_is_grade_node_iff:
  assumes "call_reply c = Inr reply" and "v = (if truthy reply then reply else PNone)"
  shows "reply_is_grade_node c \<longleftrightarrow> is_grade_node v"
  using assms
  by (cases reply) (auto simp: reply_is_grade_node_def is_grade_node_def truthy_def)

lemma grade_history:
  assumes "grade sv agent llm q gen crit st = (Inr v, st')"
  shows "\<exists>text new.
           system_prompt agent (PStr (grade_prompt sv q gen crit)) = Inr text \<and>
           calls st' = calls st @ new \<and>
           messages st' = messages st @ concat (map (call_entries text) new) \<and>
           (length new = 1 \<or> length new = 2) \<and>
           (length new = 2 \<longleftrightarrow> schema_selected agent llm \<and> \<not> reply_is_grade_node (hd new))"
proof (cases "schema_selected agent llm")
  case False
  with assms have "grade_after_schema agent llm (grade_prompt sv q gen crit) st = (Inr v, st')"
    by (simp add: grade_def Let_def)
  from grade_after_schema_Inr [OF this] obtain tx c where
    "system_prompt agent (PStr (grade_prompt sv q gen crit)) = Inr tx"
    and "calls st' = calls st @ [c]"
    and "messages st' = messages st @ call_entries tx c"
    by blast
  with False show ?thesis
    by (intro exI [of _ tx] exI [of _ "[c]"]) simp
next
  case True
  let ?p = "grade_prompt sv q gen crit"
  obtain r0 q0 st0 where
    g: "generate agent llm (PStr ?p) FormatGradeNode EvaluateGradeTool st = (r0, q0, st0)"
    by (cases "generate agent llm (PStr ?p) FormatGradeNode EvaluateGradeTool st") auto
  from assms True g obtain v0 where r0: "r0 = Inr v0"
    by (cases r0) (auto simp: grade_def Let_def)
  from generate_PStr_Inr [OF g [unfolded r0]] obtain tx c0 reply0 where
    t: "system_prompt agent (PStr ?p) = Inr tx"
    and c0: "calls st0 = calls st @ [c0]"
    and rp: "call_reply c0 = Inr reply0" "v0 = (if truthy reply0 then reply0 else PNone)"
    and m0: "messages st0 = messages st @ call_entries tx c0"
    by blast
  have node: "reply_is_grade_node c0 \<longleftrightarrow> is_grade_node v0"
    using rp by (rule reply_is_grade_node_iff)
  show ?thesis
  proof (cases "is_grade_node v0")
    case yes: True
    with assms True g r0 have "st' = st0"
      by (cases v0) (auto simp: grade_def Let_def is_grade_node_def)
    with t c0 m0 node yes True show ?thesis
      by (intro exI [of _ tx] exI [of _ "[c0]"]) simp
  next
    case no: False
    from grade_not_grade_node [OF True g [unfolded r0] no] assms
    have "grade_after_schema agent llm ?p st0 = (Inr v, st')" by simp
    from grade_after_schema_Inr [OF this] obtain tx' c1 where
      t': "system_prompt agent (PStr ?p) = Inr tx'"
      and c1: "calls st' = calls st0 @ [c1]"
      and m1: "messages st' = messages st0 @ call_entries tx' c1"
      by blast
    from t t' have "tx' = tx" by simp
    with t c0 m0 c1 m1 node no True show ?thesis
      by (intro exI [of _ tx] exI [of _ "[c0, c1]"]) simp
  qed
qed

lemma iteration_history:
  assumes q: "l_query L = PStr s"
    and it: "iteration sv agent i L st = (x, L', st')"
    and x: "x = Breaks \<or> x = Continues"
  shows "\<exists>new. calls st' = calls st @ new \<and>
           length (messages st') = length (messages st) + sum_list (map call_growth new) \<and>
           (length new = 3 \<or> length new = 4) \<and>
           (length new = 4 \<longleftrightarrow>
              schema_selected agent (critique_llm agent) \<and> \<not> reply_is_grade_node (new ! 2))"
proof -
  from iteration_normal [OF it x] q obtain raw q1 st1 crit st2 g st3 where
    gen: "generate agent (generator_llm agent) (PStr s) FormatEmpty NoTools st =
            (Inr (PStr raw), q1, st1)"
    and cr: "critique sv agent (critique_llm agent) (PStr (final_answer raw)) q1 st1 =
               (Inr crit, st2)"
    and gr: "grade sv agent (critique_llm agent) q1 (PStr (final_answer raw)) crit st2 =
               (Inr g, st3)"
    and st': "st' = (if truthy g then st3 else st3\<lparr>dirs := insert ''results'' (dirs st3)\<rparr>)"
    by auto
  from generate_PStr_Inr [OF gen] obtain t1 c1 where
    c1: "calls st1 = calls st @ [c1]"
    and m1: "messages st1 = messages st @ call_entries t1 c1"
    by blast
  from cr obtain q2 where
    "generate agent (critique_llm agent)
       (PStr (critique_prompt sv q1 (PStr (final_answer raw)))) FormatEmpty NoTools st1 =
     (Inr crit, q2, st2)"
    by (auto simp: critique_def split: prod.splits)
  from generate_PStr_Inr [OF this] obtain t2 c2 where
    c2: "calls st2 = calls st1 @ [c2]"
    and m2: "messages st2 = messages st1 @ call_entries t2 c2"
    by blast
  from grade_history [OF gr] obtain t3 new3 where
    c3: "calls st3 = calls st2 @ new3"
    and m3: "messages st3 = messages st2 @ concat (map (call_entries t3) new3)"
    and n3: "length new3 = 1 \<or> length new3 = 2"
    and two: "length new3 = 2 \<longleftrightarrow>
                schema_selected agent (critique_llm agent) \<and> \<not> reply_is_grade_node (hd new3)"
    by blast
  have len3: "length (concat (map (call_entries t3) new3)) = sum_list (map call_growth new3)"
    by (simp add: length_concat comp_def length_call_entries)
  from n3 have hd3: "(c1 # c2 # new3) ! 2 = hd new3"
    by (cases new3) auto
  have calls': "calls st' = calls st @ (c1 # c2 # new3)"
    using st' c1 c2 c3 by simp
  have msgs': "length (messages st') =
      length (messages st) + sum_list (map call_growth (c1 # c2 # new3))"
    using st' m1 m2 m3 len3 by (simp add: length_call_entries)
  from n3 have n: "length (c1 # c2 # new3) = 3 \<or> length (c1 # c2 # new3) = 4" by auto
  from two hd3 have four: "length (c1 # c2 # new3) = 4 \<longleftrightarrow>
      schema_selected agent (critique_llm agent) \<and> \<not> reply_is_grade_node ((c1 # c2 # new3) ! 2)"
    by auto
  from calls' msgs' n four show ?thesis by blast
qed

lemma sum_call_growth_all_truthy:
  "\<forall>c\<in>set cs. reply_truthy c \<Longrightarrow> sum_list (map call_growth cs) = 2 * length cs"
  by (induction cs) (auto simp: call_growth_def)

text \<open>
  C10, counterexample. One successful iteration on a string query, every reply
  non-empty, with a critic that advertises both capabilities and replies with text: the
  history, empty before, holds eight messages after it, not six.
\<close>

theorem iteration_eight_messages_counterexample:
  "fst (iteration stub_renderer (stub_agent 3 (Some True) (Some True)) 0
          ((init_locals (PStr ''What is 2+2?''))\<lparr>l_i := Some 0\<rparr>)
          (stub_env script_text_grades)) = Breaks
   \<and> length (messages (snd (snd (iteration stub_renderer (stub_agent 3 (Some True) (Some True)) 0
          ((init_locals (PStr ''What is 2+2?''))\<lparr>l_i := Some 0\<rparr>)
          (stub_env script_text_grades))))) = 8
   \<and> length (messages (stub_env script_text_grades)) = 0"
  by (simp add: eval_defs)

text \<open>
  C10, as amended. Every call of \<^verbatim>\<open>grade\<close> that returns has gone through
  \<^verbatim>\<open>generate\<close> once or twice: each backend call it made left in the history the
  grading prompt, put through the template, as a user message, followed by the reply as
  an assistant message when the reply is truthy. It makes two calls exactly when the
  structured-schema path is selected and the first reply is not a \<^verbatim>\<open>GradeNode\<close>. So
  a successful iteration on a string query makes three backend calls or, in that case,
  four, and the history grows by one entry for each call plus one for each truthy reply:
  with all replies non-empty, by six messages when grading makes one call and by eight
  when it makes two.
\<close>

theorem grade_mutates_history:
  "(grade sv agent llm q gen crit st = (Inr v, st') \<longrightarrow>
      (\<exists>text new.
         system_prompt agent (PStr (grade_prompt sv q gen crit)) = Inr text \<and>
         calls st' = calls st @ new \<and>
         messages st' = messages st @ concat (map (call_entries text) new) \<and>
         (length new = 1 \<or> length new = 2) \<and>
         (length new = 2 \<longleftrightarrow> schema_selected agent llm \<and> \<not> reply_is_grade_node (hd new))))
   \<and> (l_query L = PStr s \<and> iteration sv agent i L st = (x, L', st'') \<and>
       (x = Breaks \<or> x = Continues) \<longrightarrow>
      (\<exists>new. calls st'' = calls st @ new \<and>
         length (messages st'') = length (messages st) + sum_list (map call_growth new) \<and>
         (length new = 3 \<or> length new = 4) \<and>
         (length new = 4 \<longleftrightarrow>
            schema_selected agent (critique_llm agent) \<and> \<not> reply_is_grade_node (new ! 2)) \<and>
         ((\<forall>c\<in>set new. reply_truthy c) \<longrightarrow>
            length (messages st'') = length (messages st) + 2 * length new)))"
proof (intro conjI impI)
  assume "grade sv agent llm q gen crit st = (Inr v, st')"
  then show "\<exists>text new.
         system_prompt agent (PStr (grade_prompt sv q gen crit)) = Inr text \<and>
         calls st' = calls st @ new \<and>
         messages st' = messages st @ concat (map (call_entries text) new) \<and>
         (length new = 1 \<or> length new = 2) \<and>
         (length new = 2 \<longleftrightarrow> schema_selected agent llm \<and> \<not> reply_is_grade_node (hd new))"
    by (rule grade_history)
next
  assume a: "l_query L = PStr s \<and> iteration sv agent i L st = (x, L', st'') \<and>
             (x = Breaks \<or> x = Continues)"
  then obtain new where
    1: "calls st'' = calls st @ new"
    and 2: "length (messages st'') = length (messages st) + sum_list (map call_growth new)"
    and 3: "length new = 3 \<or> length new = 4"
    and 4: "length new = 4 \<longleftrightarrow>
              schema_selected agent (critique_llm agent) \<and> \<not> reply_is_grade_node (new ! 2)"
    using iteration_history [of L s sv agent i st x L' st''] by blast
  from 2 have "(\<forall>c\<in>set new. reply_truthy c) \<longrightarrow>
      length (messages st'') = length (messages st) + 2 * length new"
    by (simp add: sum_call_growth_all_truthy)
  with 1 2 3 4
  show "\<exists>new. calls st'' = calls st @ new \<and>
         length (messages st'') = length (messages st) + sum_list (map call_growth new) \<and>
         (length new = 3 \<or> length new = 4) \<and>
         (length new = 4 \<longleftrightarrow>
            schema_selected agent (critique_llm agent) \<and> \<not> reply_is_grade_node (new ! 2)) \<and>
         ((\<forall>c\<in>set new. reply_truthy c) \<longrightarrow>
            length (messages st'') = length (messages st) + 2 * length new)"
    by blast
qed

theorem grade_mutates_history_witness:
  "fst (grade stub_renderer (stub_agent 3 (Some True) (Some True))
          (critique_llm (stub_agent 3 (Some True) (Some True)))
          (PStr ''What is 2+2?'') (PStr '' 4'') (PStr '' 4'')
          (stub_env script_text_grades)) = Inr (PBool False)
   \<and> (length (calls (snd (grade stub_renderer (stub_agent 3 (Some True) (Some True))
          (critique_llm (stub_agent 3 (Some True) (Some True)))
          (PStr ''What is 2+2?'') (PStr '' 4'') (PStr '' 4'')
          (stub_env script_text_grades)))) = 1
       \<or> length (calls (snd (grade stub_renderer (stub_agent 3 (Some True) (Some True))
          (critique_llm (stub_agent 3 (Some True) (Some True)))
          (PStr ''What is 2+2?'') (PStr '' 4'') (PStr '' 4'')
          (stub_env script_text_grades)))) = 2)
   \<and> fst (iteration stub_renderer (stub_agent 3 (Some True) (Some True)) 0
          ((init_locals (PStr ''What is 2+2?''))\<lparr>l_i := Some 0\<rparr>)
          (stub_env script_text_grades)) = Breaks
   \<and> length (messages (snd (snd (iteration stub_renderer (stub_agent 3 (Some True) (Some True)) 0
          ((init_locals (PStr ''What is 2+2?''))\<lparr>l_i := Some 0\<rparr>)
          (stub_env script_text_grades))))) =
       sum_list (map call_growth
         (calls (snd (snd (iteration stub_renderer (stub_agent 3 (Some True) (Some True)) 0
            ((init_locals (PStr ''What is 2+2?''))\<lparr>l_i := Some 0\<rparr>)
            (stub_env script_text_grades))))))"
proof -
  let ?A = "stub_agent 3 (Some True) (Some True)"
  let ?L = "(init_locals (PStr ''What is 2+2?''))\<lparr>l_i := Some 0\<rparr>"
  let ?st = "stub_env script_text_grades"
  let ?G = "grade stub_renderer ?A (critique_llm ?A) (PStr ''What is 2+2?'') (PStr '' 4'')
              (PStr '' 4'') ?st"
  let ?I = "iteration stub_renderer ?A 0 ?L ?st"
  have fg: "fst ?G = Inr (PBool False)" by (simp add: eval_defs)
  then have g: "?G = (Inr (PBool False), snd ?G)" by (cases ?G) simp
  have fi: "fst ?I = Breaks" by (simp add: eval_defs)
  then have i: "?I = (Breaks, fst (snd ?I), snd (snd ?I))" by (cases ?I) simp
  have q: "l_query ?L = PStr ''What is 2+2?''" by (simp add: init_locals_def)
  have e: "calls ?st = []" "messages ?st = []" by (simp_all add: stub_env_def)
  note T = grade_mutates_history
      [where sv = stub_renderer and agent = ?A and llm = "critique_llm ?A"
         and q = "PStr ''What is 2+2?''" and gen = "PStr '' 4''" and crit = "PStr '' 4''"
         and st = ?st and v = "PBool False" and st' = "snd ?G"
         and L = ?L and s = "''What is 2+2?''" and i = 0 and x = Breaks
         and L' = "fst (snd ?I)" and st'' = "snd (snd ?I)"]
  from T g e obtain new where
    "calls (snd ?G) = new" and "length new = 1 \<or> length new = 2"
    by auto
  then have 1: "length (calls (snd ?G)) = 1 \<or> length (calls (snd ?G)) = 2" by simp
  from T q i e obtain new' where
    "calls (snd (snd ?I)) = new'"
    and "length (messages (snd (snd ?I))) = sum_list (map call_growth new')"
    by auto
  then have 2: "length (messages (snd (snd ?I))) =
      sum_list (map call_growth (calls (snd (snd ?I))))"
    by simp
  from fg 1 fi 2 show ?thesis by simp
qed

end
